theory Spec2Isabelle
  imports Main "HOL-Library.Sublist"
begin

section \<open>JavaScript values, errors and strings\<close>

text \<open>
  The program is \<^verbatim>\<open>src/index.js\<close>: the classes \<^verbatim>\<open>DLNADiscoverer\<close> and
  \<^verbatim>\<open>DLNAController\<close>. Strings are byte strings (the UTF-8 encoding of the JavaScript
  string); \<^verbatim>\<open>trim\<close> and \<^verbatim>\<open>toLowerCase\<close> are modelled on the ASCII range, which is
  what SSDP headers and UPnP descriptions use.

  The values that \<^verbatim>\<open>xml2js\<close> (with \<^verbatim>\<open>explicitArray: false\<close>) and \<^verbatim>\<open>JSON.parse\<close>
  hand to the program are undefined, strings, objects (key order is insertion order,
  that is document order) and arrays.
\<close>

datatype js = JUndef | JStr string | JObj "(string \<times> js) list" | JArr "js list"

datatype error = Error string | TypeError string


text \<open>Truthiness, as used by \<^verbatim>\<open>!x\<close>, \<^verbatim>\<open>x || y\<close> and \<^verbatim>\<open>if (x)\<close>.\<close>

fun truthy :: "js \<Rightarrow> bool" where
  "truthy JUndef = False"
| "truthy (JStr s) = (s \<noteq> [])"
| "truthy (JObj kvs) = True"
| "truthy (JArr xs) = True"

text \<open>
  Property access \<^verbatim>\<open>v.k\<close> for the keys the program reads (none of them is a built-in
  property of strings or arrays): reading a property of undefined raises a TypeError.
\<close>

fun get_prop :: "js \<Rightarrow> string \<Rightarrow> error + js" where
  "get_prop JUndef k = Inl (TypeError (''Cannot read properties of undefined (reading '' @ k @ '')''))"
| "get_prop (JStr s) k = Inr JUndef"
| "get_prop (JObj kvs) k = Inr (case map_of kvs k of None \<Rightarrow> JUndef | Some v \<Rightarrow> v)"
| "get_prop (JArr xs) k = Inr JUndef"

text \<open>
  String conversion, as in a template literal or an argument of \<^verbatim>\<open>new URL\<close>; an array
  joins its elements with commas, an undefined element giving the empty string.
\<close>

fun to_string :: "js \<Rightarrow> string"
  and join_items :: "js list \<Rightarrow> string"
where
  "to_string JUndef = ''undefined''"
| "to_string (JStr s) = s"
| "to_string (JObj kvs) = ''[object Object]''"
| "to_string (JArr xs) = join_items xs"
| "join_items [] = []"
| "join_items (x # xs) =
     (case x of JUndef \<Rightarrow> [] | _ \<Rightarrow> to_string x) @ (if xs = [] then [] else '','' @ join_items xs)"

text \<open>\<^verbatim>\<open>s.split(c)\<close> for a one-character separator: never empty, \<^verbatim>\<open>''.split(':')\<close> is \<^verbatim>\<open>['']\<close>.\<close>

fun split_on :: "char \<Rightarrow> string \<Rightarrow> string list" where
  "split_on c [] = [[]]"
| "split_on c (x # xs) =
     (if x = c then [] # split_on c xs
      else (let r = split_on c xs in (x # hd r) # tl r))"

text \<open>\<^verbatim>\<open>s.split('\r\n')\<close>.\<close>

fun split_crlf :: "string \<Rightarrow> string list" where
  "split_crlf [] = [[]]"
| "split_crlf [a] = [[a]]"
| "split_crlf (a # b # xs) =
     (if a = CHR 0x0D \<and> b = CHR 0x0A then [] # split_crlf xs
      else (let r = split_crlf (b # xs) in (a # hd r) # tl r))"

text \<open>\<^verbatim>\<open>s.indexOf(c)\<close>: \<^verbatim>\<open>-1\<close> is \<open>None\<close>.\<close>

fun indexOf :: "char \<Rightarrow> string \<Rightarrow> nat option" where
  "indexOf c [] = None"
| "indexOf c (x # xs) =
     (if x = c then Some 0 else (case indexOf c xs of None \<Rightarrow> None | Some i \<Rightarrow> Some (Suc i)))"

definition is_space :: "char \<Rightarrow> bool" where
  "is_space c = (c \<in> set [CHR 0x09, CHR 0x0A, CHR 0x0B, CHR 0x0C, CHR 0x0D, CHR 0x20])"

definition trim :: "string \<Rightarrow> string" where
  "trim s = rev (dropWhile is_space (rev (dropWhile is_space s)))"

definition lower_table :: "(char \<times> char) list" where
  "lower_table = zip ''ABCDEFGHIJKLMNOPQRSTUVWXYZ'' ''abcdefghijklmnopqrstuvwxyz''"

definition lower_char :: "char \<Rightarrow> char" where
  "lower_char c = (case map_of lower_table c of Some l \<Rightarrow> l | None \<Rightarrow> c)"

definition toLowerCase :: "string \<Rightarrow> string" where
  "toLowerCase s = map lower_char s"

text \<open>\<^verbatim>\<open>String(n)\<close> for a non-negative integer such as an HTTP status.\<close>

definition digit_char :: "nat \<Rightarrow> char" where
  "digit_char d = ''0123456789'' ! d"

function show_nat :: "nat \<Rightarrow> string" where
  "show_nat n = (if n < 10 then [digit_char n] else show_nat (n div 10) @ [digit_char (n mod 10)])"
  by pat_completeness auto
termination
  by (relation "measure id") auto

declare show_nat.simps [simp del]

text \<open>\<^verbatim>\<open>s.replace(/\/+/g, '/')\<close>: every run of slashes becomes one slash.\<close>

fun collapse_slashes :: "string \<Rightarrow> string" where
  "collapse_slashes [] = []"
| "collapse_slashes [a] = [a]"
| "collapse_slashes (a # b # cs) =
     (if a = CHR ''/'' \<and> b = CHR ''/'' then collapse_slashes (b # cs)
      else a # collapse_slashes (b # cs))"


section \<open>The URL class\<close>

text \<open>
  \<^verbatim>\<open>URL\<close> is Node's implementation of the WHATWG URL Standard, not code of this
  repository. It is modelled here for what the program gives it: URLs with the scheme
  \<^verbatim>\<open>http\<close> or \<^verbatim>\<open>https\<close>, an ASCII host name or a dotted-decimal IPv4 address, an
  optional port, a path, a query and a fragment, and references relative to such a URL.
  Inputs outside that range (other schemes, credentials, IPv6 literals, percent-encoded
  or non-ASCII hosts, IPv4 shorthands) are answered with \<open>None\<close>, as a rejected input is.
\<close>

record url =
  protocol :: string
  hostname :: string
  url_port :: string
  pathname :: string
  query :: "string option"
  fragment :: "string option"

definition url_host :: "url \<Rightarrow> string" where
  "url_host u = hostname u @ (if url_port u = [] then [] else CHR '':'' # url_port u)"

definition origin :: "url \<Rightarrow> string" where
  "origin u = protocol u @ ''//'' @ url_host u"

definition href :: "url \<Rightarrow> string" where
  "href u = protocol u @ ''//'' @ url_host u @ pathname u
     @ (case query u of None \<Rightarrow> [] | Some q \<Rightarrow> CHR ''?'' # q)
     @ (case fragment u of None \<Rightarrow> [] | Some f \<Rightarrow> CHR ''#'' # f)"

definition is_alpha :: "char \<Rightarrow> bool" where
  "is_alpha c = (c \<in> set ''ABCDEFGHIJKLMNOPQRSTUVWXYZabcdefghijklmnopqrstuvwxyz'')"

definition is_digit :: "char \<Rightarrow> bool" where
  "is_digit c = (c \<in> set ''0123456789'')"

definition is_sep :: "char \<Rightarrow> bool" where
  "is_sep c = (c = CHR ''/'' \<or> c = CHR 0x5C)"

definition c0_or_space :: "char \<Rightarrow> bool" where
  "c0_or_space c = ((of_char c :: nat) \<le> 0x20)"

definition tab_or_newline :: "char \<Rightarrow> bool" where
  "tab_or_newline c = (c \<in> set [CHR 0x09, CHR 0x0A, CHR 0x0D])"

definition clean_input :: "string \<Rightarrow> string" where
  "clean_input s =
     filter (\<lambda>c. \<not> tab_or_newline c) (rev (dropWhile c0_or_space (rev (dropWhile c0_or_space s))))"

text \<open>Percent-encoding of one byte, and the three percent-encode sets.\<close>

definition hex_digit :: "nat \<Rightarrow> char" where
  "hex_digit d = ''0123456789ABCDEF'' ! d"

definition pct :: "char \<Rightarrow> string" where
  "pct c = [CHR ''%'', hex_digit ((of_char c :: nat) div 16), hex_digit ((of_char c :: nat) mod 16)]"

definition c0_or_high :: "char \<Rightarrow> bool" where
  "c0_or_high c = ((of_char c :: nat) < 0x20 \<or> 0x7E < (of_char c :: nat))"

definition path_set :: "char \<Rightarrow> bool" where
  "path_set c = (c0_or_high c \<or>
     c \<in> set [CHR 0x20, CHR 0x22, CHR ''#'', CHR ''<'', CHR ''>'', CHR ''?'', CHR 0x60, CHR ''{'', CHR ''}''])"

definition query_set :: "char \<Rightarrow> bool" where
  "query_set c = (c0_or_high c \<or>
     c \<in> set [CHR 0x20, CHR 0x22, CHR ''#'', CHR ''<'', CHR ''>'', CHR 0x27])"

definition fragment_set :: "char \<Rightarrow> bool" where
  "fragment_set c = (c0_or_high c \<or>
     c \<in> set [CHR 0x20, CHR 0x22, CHR ''<'', CHR ''>'', CHR 0x60])"

definition encode :: "(char \<Rightarrow> bool) \<Rightarrow> string \<Rightarrow> string" where
  "encode P s = concat (map (\<lambda>c. if P c then pct c else [c]) s)"

text \<open>The scheme: a letter, then letters, digits, \<^verbatim>\<open>+\<close>, \<^verbatim>\<open>-\<close> or \<^verbatim>\<open>.\<close>, up to a colon.\<close>

definition scheme_char :: "char \<Rightarrow> bool" where
  "scheme_char c = (is_alpha c \<or> is_digit c \<or> c \<in> set ''+-.'')"

definition scan_scheme :: "string \<Rightarrow> (string \<times> string) option" where
  "scan_scheme s =
     (case s of
        [] \<Rightarrow> None
      | c # cs \<Rightarrow>
          if is_alpha c then
            (case dropWhile scheme_char s of
               [] \<Rightarrow> None
             | d # r \<Rightarrow> if d = CHR '':'' then Some (toLowerCase (takeWhile scheme_char s), r) else None)
          else None)"

definition special_scheme :: "string \<Rightarrow> bool" where
  "special_scheme sch = (sch = ''http'' \<or> sch = ''https'')"

definition default_port :: "string \<Rightarrow> nat" where
  "default_port sch = (if sch = ''http'' then 80 else 443)"

text \<open>The port: decimal digits, at most 65535; the scheme's default port is dropped.\<close>

definition digit_value :: "char \<Rightarrow> nat" where
  "digit_value c = (of_char c :: nat) - 48"

definition digits_value :: "string \<Rightarrow> nat" where
  "digits_value ds = foldl (\<lambda>n c. 10 * n + digit_value c) 0 ds"

definition parse_port :: "string \<Rightarrow> string \<Rightarrow> string option" where
  "parse_port sch p =
     (if \<not> list_all is_digit p then None
      else if p = [] then Some []
      else if 65535 < digits_value p then None
      else if digits_value p = default_port sch then Some []
      else Some (show_nat (digits_value p)))"

text \<open>The host: not empty, lower-cased, without forbidden code points.\<close>

definition forbidden_host :: "char \<Rightarrow> bool" where
  "forbidden_host c = ((of_char c :: nat) \<le> 0x20 \<or> 0x7F \<le> (of_char c :: nat) \<or>
     c \<in> set [CHR ''#'', CHR ''/'', CHR '':'', CHR ''<'', CHR ''>'', CHR ''?'', CHR ''@'',
               CHR ''['', CHR 0x5C, CHR '']'', CHR ''^'', CHR ''|'', CHR ''%''])"

definition ends_in_number :: "string \<Rightarrow> bool" where
  "ends_in_number h =
     (let parts = split_on (CHR ''.'') h;
          parts' = (if last parts = [] \<and> 1 < length parts then butlast parts else parts);
          l = last parts'
      in (l \<noteq> [] \<and> list_all is_digit l) \<or> take 2 l = ''0x'')"

definition decimal_octet :: "string \<Rightarrow> bool" where
  "decimal_octet l = (l \<noteq> [] \<and> list_all is_digit l \<and> (hd l \<noteq> CHR ''0'' \<or> l = ''0'')
     \<and> digits_value l \<le> 255)"

definition plain_ipv4 :: "string \<Rightarrow> bool" where
  "plain_ipv4 h = (let parts = split_on (CHR ''.'') h in length parts = 4 \<and> list_all decimal_octet parts)"

definition parse_host :: "string \<Rightarrow> string option" where
  "parse_host h =
     (let l = toLowerCase h in
      if l = [] \<or> list_ex forbidden_host l then None
      else if ends_in_number l then (if plain_ipv4 l then Some l else None)
      else Some l)"

definition parse_authority :: "string \<Rightarrow> string \<Rightarrow> (string \<times> string) option" where
  "parse_authority sch a =
     (case split_on (CHR '':'') a of
        [h] \<Rightarrow> (case parse_host h of None \<Rightarrow> None | Some h' \<Rightarrow> Some (h', []))
      | [h, p] \<Rightarrow>
          (case parse_host h of
             None \<Rightarrow> None
           | Some h' \<Rightarrow> (case parse_port sch p of None \<Rightarrow> None | Some p' \<Rightarrow> Some (h', p')))
      | _ \<Rightarrow> None)"

text \<open>
  The path: segments between separators (a backslash counts as a slash), each
  percent-encoded; a single-dot segment is dropped and a double-dot segment removes
  the segment before it.
\<close>

fun split_where :: "(char \<Rightarrow> bool) \<Rightarrow> string \<Rightarrow> string list" where
  "split_where P [] = [[]]"
| "split_where P (x # xs) =
     (if P x then [] # split_where P xs
      else (let r = split_where P xs in (x # hd r) # tl r))"

definition single_dot :: "string \<Rightarrow> bool" where
  "single_dot g = (toLowerCase g \<in> set [''.'', ''%2e''])"

definition double_dot :: "string \<Rightarrow> bool" where
  "double_dot g = (toLowerCase g \<in> set [''..'', ''.%2e'', ''%2e.'', ''%2e%2e''])"

fun path_segments :: "string list \<Rightarrow> string list \<Rightarrow> string list" where
  "path_segments acc [] = acc"
| "path_segments acc (g # gs) =
     (if double_dot g then path_segments (butlast acc @ (if gs = [] then [[]] else [])) gs
      else if single_dot g then path_segments (acc @ (if gs = [] then [[]] else [])) gs
      else path_segments (acc @ [encode path_set g]) gs)"

definition parse_path :: "string list \<Rightarrow> string \<Rightarrow> string" where
  "parse_path acc s =
     (let body = (case s of [] \<Rightarrow> [] | c # r \<Rightarrow> if is_sep c then r else s)
      in concat (map (\<lambda>g. CHR ''/'' # g) (path_segments acc (split_where is_sep body))))"

text \<open>What follows the path: \<^verbatim>\<open>?query\<close> and \<^verbatim>\<open>#fragment\<close>.\<close>

definition path_part :: "string \<Rightarrow> string" where
  "path_part s = takeWhile (\<lambda>c. c \<noteq> CHR ''?'' \<and> c \<noteq> CHR ''#'') s"

definition fragment_part :: "string \<Rightarrow> string option" where
  "fragment_part s =
     (case dropWhile (\<lambda>c. c \<noteq> CHR ''#'') s of [] \<Rightarrow> None | c # f \<Rightarrow> Some (encode fragment_set f))"

definition query_part :: "string \<Rightarrow> string option" where
  "query_part s =
     (case dropWhile (\<lambda>c. c \<noteq> CHR ''?'' \<and> c \<noteq> CHR ''#'') s of
        [] \<Rightarrow> None
      | c # q \<Rightarrow> if c = CHR ''?'' then Some (encode query_set (takeWhile (\<lambda>c. c \<noteq> CHR ''#'') q))
                 else None)"

definition auth_end :: "char \<Rightarrow> bool" where
  "auth_end c = (is_sep c \<or> c = CHR ''?'' \<or> c = CHR ''#'')"

text \<open>An absolute http(s) URL, after its scheme and colon.\<close>

definition parse_special :: "string \<Rightarrow> string \<Rightarrow> url option" where
  "parse_special sch rest =
     (let r = dropWhile is_sep rest;
          t = dropWhile (\<lambda>c. \<not> auth_end c) r
      in case parse_authority sch (takeWhile (\<lambda>c. \<not> auth_end c) r) of
           None \<Rightarrow> None
         | Some (h, p) \<Rightarrow>
             Some \<lparr>protocol = sch @ '':'', hostname = h, url_port = p,
                   pathname = parse_path [] (path_part t),
                   query = query_part t, fragment = fragment_part t\<rparr>)"

text \<open>A reference resolved against a base URL.\<close>

definition base_segments :: "url \<Rightarrow> string list" where
  "base_segments b = butlast (split_on (CHR ''/'') (tl (pathname b)))"

definition parse_relative :: "url \<Rightarrow> string \<Rightarrow> url option" where
  "parse_relative b s =
     (case s of
        [] \<Rightarrow> Some (b\<lparr>fragment := None\<rparr>)
      | c # cs \<Rightarrow>
          if is_sep c then
            (if cs \<noteq> [] \<and> is_sep (hd cs) then parse_special (butlast (protocol b)) s
             else Some (b\<lparr>pathname := parse_path [] (path_part s),
                         query := query_part s, fragment := fragment_part s\<rparr>))
          else if c = CHR ''?'' then Some (b\<lparr>query := query_part s, fragment := fragment_part s\<rparr>)
          else if c = CHR ''#'' then Some (b\<lparr>fragment := fragment_part s\<rparr>)
          else Some (b\<lparr>pathname := parse_path (base_segments b) (path_part s),
                      query := query_part s, fragment := fragment_part s\<rparr>))"

definition parse_absolute :: "string \<Rightarrow> url option" where
  "parse_absolute s =
     (case scan_scheme s of
        None \<Rightarrow> None
      | Some (sch, rest) \<Rightarrow> if special_scheme sch then parse_special sch rest else None)"

text \<open>\<^verbatim>\<open>new URL(input)\<close> and \<^verbatim>\<open>new URL(input, base)\<close>; \<open>None\<close> is the TypeError it throws.\<close>

definition URL_new :: "string \<Rightarrow> string option \<Rightarrow> url option" where
  "URL_new input base =
     (let s = clean_input input in
      case base of
        None \<Rightarrow> parse_absolute s
      | Some b \<Rightarrow>
          (case parse_absolute (clean_input b) of
             None \<Rightarrow> None
           | Some bu \<Rightarrow>
               (case scan_scheme s of
                  None \<Rightarrow> parse_relative bu s
                | Some (sch, rest) \<Rightarrow>
                    if \<not> special_scheme sch then None
                    else if protocol bu = sch @ '':'' then parse_relative bu rest
                    else parse_special sch rest)))"

text \<open>The \<^verbatim>\<open>pathname\<close> setter parses its value as a path.\<close>

definition set_pathname :: "url \<Rightarrow> string \<Rightarrow> url" where
  "set_pathname u v = u\<lparr>pathname := parse_path [] (filter (\<lambda>c. \<not> tab_or_newline c) v)\<rparr>"


section \<open>HTTP and XML, the environment\<close>

text \<open>
  One HTTP exchange is \<^verbatim>\<open>fetch\<close> followed by reading the body with \<^verbatim>\<open>text()\<close>. Either
  step may reject, and the program lets both rejections propagate in the same way, so an
  exchange has one result: an error, or a status with the body text. The network answers
  a request knowing the requests made before it; every request is logged.
\<close>

record http_request =
  http_method :: string
  request_url :: string
  request_headers :: "(string \<times> string) list"
  request_body :: string

record http_response =
  status :: nat
  body :: string

definition ok :: "http_response \<Rightarrow> bool" where
  "ok r = (200 \<le> status r \<and> status r \<le> 299)"

type_synonym network = "http_request list \<Rightarrow> http_request \<Rightarrow> error + http_response"

definition fetch :: "network \<Rightarrow> http_request list \<Rightarrow> http_request
    \<Rightarrow> (error + http_response) \<times> http_request list" where
  "fetch net log req = (net log req, log @ [req])"

definition GET :: "string \<Rightarrow> http_request" where
  "GET u = \<lparr>http_method = ''GET'', request_url = u, request_headers = [], request_body = []\<rparr>"

text \<open>\<^verbatim>\<open>parser.parseStringPromise\<close> of \<^verbatim>\<open>xml2js\<close>: an error or the parsed document.\<close>

type_synonym xml_parser = "string \<Rightarrow> error + js"

text \<open>Sequencing of steps that may throw.\<close>

definition then_do :: "error + 'a \<Rightarrow> ('a \<Rightarrow> error + 'b) \<Rightarrow> error + 'b" where
  "then_do r f = (case r of Inl e \<Rightarrow> Inl e | Inr v \<Rightarrow> f v)"

text \<open>\<^verbatim>\<open>result.root?.device || result.device\<close>, the device node of a parsed description.\<close>

definition device_of :: "js \<Rightarrow> error + js" where
  "device_of result =
     then_do (get_prop result ''root'') (\<lambda>root.
     then_do (if root = JUndef then Inr JUndef else get_prop root ''device'') (\<lambda>rootDevice.
       if truthy rootDevice then Inr rootDevice else get_prop result ''device''))"

section \<open>DLNADiscoverer\<close>

record service =
  serviceType :: js
  controlURL :: js

definition AVTransport_prefix :: string where
  "AVTransport_prefix = ''urn:schemas-upnp-org:service:AVTransport:''"

text \<open>
  \<^verbatim>\<open>findAVTransportService(node)\<close>. \<^verbatim>\<open>node.serviceType?.startsWith(...)\<close> skips an absent
  \<^verbatim>\<open>serviceType\<close>, calls \<^verbatim>\<open>startsWith\<close> on a string, and raises a TypeError on an object
  or an array, which have no such method.
\<close>

fun findAVTransportService :: "js \<Rightarrow> error + service option"
  and find_in_items :: "js list \<Rightarrow> error + service option"
  and find_in_values :: "(string \<times> js) list \<Rightarrow> error + service option"
where
  "findAVTransportService JUndef = Inr None"
| "findAVTransportService (JStr s) = Inr None"
| "findAVTransportService (JArr xs) = find_in_items xs"
| "findAVTransportService (JObj kvs) =
     (case (case map_of kvs ''serviceType'' of None \<Rightarrow> JUndef | Some v \<Rightarrow> v) of
        JUndef \<Rightarrow> find_in_values kvs
      | JStr t \<Rightarrow>
          if prefix AVTransport_prefix t
          then Inr (Some \<lparr>serviceType = JStr t,
                          controlURL = (case map_of kvs ''controlURL'' of None \<Rightarrow> JUndef | Some v \<Rightarrow> v)\<rparr>)
          else find_in_values kvs
      | _ \<Rightarrow> Inl (TypeError ''node.serviceType?.startsWith is not a function''))"
| "find_in_items [] = Inr None"
| "find_in_items (item # items) =
     (case findAVTransportService item of
        Inl e \<Rightarrow> Inl e
      | Inr (Some found) \<Rightarrow> Inr (Some found)
      | Inr None \<Rightarrow> find_in_items items)"
| "find_in_values [] = Inr None"
| "find_in_values (kv # kvs) =
     (case findAVTransportService (snd kv) of
        Inl e \<Rightarrow> Inl e
      | Inr (Some found) \<Rightarrow> Inr (Some found)
      | Inr None \<Rightarrow> find_in_values kvs)"

definition isValidHttpUrl :: "string \<Rightarrow> bool" where
  "isValidHttpUrl u =
     (case URL_new u None of
        None \<Rightarrow> False
      | Some parsed \<Rightarrow> protocol parsed = ''http:'' \<or> protocol parsed = ''https:'')"

definition normalizeURL :: "string \<Rightarrow> js \<Rightarrow> string option" where
  "normalizeURL base path =
     (case URL_new base None of
        None \<Rightarrow> None
      | Some baseURL \<Rightarrow>
          (case URL_new (to_string path) (Some (origin baseURL)) of
             None \<Rightarrow> None
           | Some resolved \<Rightarrow>
               Some (href (set_pathname resolved (collapse_slashes (pathname resolved))))))"

definition parseDeviceType :: "js \<Rightarrow> error + string" where
  "parseDeviceType typeStr =
     (case (if truthy typeStr then typeStr else JStr []) of
        JStr t \<Rightarrow>
          (let parts = split_on (CHR '':'') t
           in Inr (if 4 \<le> length parts then parts ! 3 else ''MediaRenderer''))
      | _ \<Rightarrow> Inl (TypeError ''(typeStr || \"\").split is not a function''))"

text \<open>\<^verbatim>\<open>v?.trim() || d\<close>.\<close>

definition trim_or :: "js \<Rightarrow> string \<Rightarrow> error + string" where
  "trim_or v d =
     (case v of
        JUndef \<Rightarrow> Inr d
      | JStr t \<Rightarrow> Inr (if trim t = [] then d else trim t)
      | _ \<Rightarrow> Inl (TypeError ''trim is not a function''))"

record descriptor =
  name :: string
  type :: string
  manufacturer :: string
  controlURL :: "string option"
  ip :: string
  originalLocation :: string
  port :: string

text \<open>
  \<^verbatim>\<open>parseDeviceDescription(location)\<close>: \<open>describe\<close> is the body of its \<^verbatim>\<open>try\<close> block from
  the response on, and the \<^verbatim>\<open>catch\<close> turns every error into \<^verbatim>\<open>null\<close>.
\<close>

definition describe :: "xml_parser \<Rightarrow> string \<Rightarrow> http_response \<Rightarrow> error + descriptor option" where
  "describe xml location res =
     (if \<not> ok res then Inl (Error (''HTTP '' @ show_nat (status res)))
      else
        then_do (xml (body res)) (\<lambda>result.
        then_do (device_of result) (\<lambda>device.
          if \<not> truthy device then Inr None
          else
            then_do (get_prop device ''serviceList'') (\<lambda>serviceList.
            then_do (findAVTransportService serviceList) (\<lambda>found.
              case found of
                None \<Rightarrow> Inr None
              | Some avTransport \<Rightarrow>
                  (case URL_new location None of
                     None \<Rightarrow> Inl (TypeError ''Invalid URL'')
                   | Some url \<Rightarrow>
                       then_do (get_prop device ''friendlyName'') (\<lambda>friendlyName.
                       then_do (trim_or friendlyName ''Unnamed Device'') (\<lambda>n.
                       then_do (get_prop device ''deviceType'') (\<lambda>deviceType.
                       then_do (parseDeviceType deviceType) (\<lambda>t.
                       then_do (get_prop device ''manufacturer'') (\<lambda>manu.
                       then_do (trim_or manu ''Unknown Manufacturer'') (\<lambda>m.
                         Inr (Some \<lparr>name = n, type = t, manufacturer = m,
                                    controlURL = normalizeURL location (service.controlURL avTransport),
                                    ip = ''Pending'', originalLocation = location,
                                    port = url_port url\<rparr>)))))))))))))"

definition parseDeviceDescription :: "xml_parser \<Rightarrow> network \<Rightarrow> http_request list \<Rightarrow> string
    \<Rightarrow> descriptor option \<times> http_request list" where
  "parseDeviceDescription xml net log location =
     (if \<not> isValidHttpUrl location then (None, log)
      else
        (let (r, log') = fetch net log (GET location)
         in case then_do r (describe xml location) of
              Inl err \<Rightarrow> (None, log')
            | Inr device \<Rightarrow> (device, log')))"


subsection \<open>The scan\<close>

text \<open>
  The header mapping of a datagram, built by the \<^verbatim>\<open>reduce\<close> over its lines. The
  accumulator is a plain object, on which an assignment to \<^verbatim>\<open>__proto__\<close> of a string
  creates no entry.
\<close>

definition header_step :: "(string \<rightharpoonup> string) \<Rightarrow> string \<Rightarrow> (string \<rightharpoonup> string)" where
  "header_step acc line =
     (case indexOf (CHR '':'') line of
        None \<Rightarrow> acc
      | Some colonIndex \<Rightarrow>
          (let key = toLowerCase (trim (take colonIndex line));
               val = trim (drop (colonIndex + 1) line)
           in if key \<noteq> [] \<and> val \<noteq> [] then (if key = ''__proto__'' then acc else acc(key \<mapsto> val))
              else acc))"

definition parse_headers :: "string \<Rightarrow> (string \<rightharpoonup> string)" where
  "parse_headers msg = foldl header_step Map.empty (split_crlf msg)"

text \<open>
  The state of one \<^verbatim>\<open>discover\<close> call: the \<^verbatim>\<open>devices\<close> Map in insertion order, the
  resolutions that have passed the check of the message handler and are awaiting
  \<^verbatim>\<open>parseDeviceDescription\<close>, the socket, its membership of \<^verbatim>\<open>activeSockets\<close>, the
  timer, the attached message handler, the search datagrams sent, and the value the
  promise was resolved with.
\<close>

record task =
  task_location :: string
  task_address :: string

record scan =
  devices :: "(string \<times> descriptor) list"
  tasks :: "task list"
  requests :: "http_request list"
  socket_open :: bool
  active :: bool
  timer :: bool
  listening :: bool
  datagrams :: "(string \<times> string) list"
  resolved :: "descriptor list option"

text \<open>\<^verbatim>\<open>Map.has\<close>, \<^verbatim>\<open>Map.set\<close> (an existing key keeps its place) and \<^verbatim>\<open>Map.values\<close>.\<close>

definition map_has :: "(string \<times> 'v) list \<Rightarrow> string \<Rightarrow> bool" where
  "map_has m k = (k \<in> set (map fst m))"

definition map_set :: "(string \<times> 'v) list \<Rightarrow> string \<Rightarrow> 'v \<Rightarrow> (string \<times> 'v) list" where
  "map_set m k v =
     (if map_has m k then map (\<lambda>kv. if fst kv = k then (k, v) else kv) m else m @ [(k, v)])"

definition map_values :: "(string \<times> 'v) list \<Rightarrow> 'v list" where
  "map_values m = map snd m"

text \<open>The message handler up to its \<^verbatim>\<open>await\<close>: the datagram is dropped or a resolution starts.\<close>

definition on_message :: "scan \<Rightarrow> string \<Rightarrow> string \<Rightarrow> scan" where
  "on_message s msg address =
     (case parse_headers msg ''location'' of
        None \<Rightarrow> s
      | Some location \<Rightarrow>
          if location = [] \<or> map_has (devices s) location then s
          else s\<lparr>tasks := tasks s @ [\<lparr>task_location = location, task_address = address\<rparr>]\<rparr>)"

text \<open>The message handler after its \<^verbatim>\<open>await\<close>, for the \<open>i\<close>-th resolution under way.\<close>

definition on_resolved :: "xml_parser \<Rightarrow> network \<Rightarrow> scan \<Rightarrow> nat \<Rightarrow> scan" where
  "on_resolved xml net s i =
     (if length (tasks s) \<le> i then s
      else
        (let t = tasks s ! i;
             (found, log') = parseDeviceDescription xml net (requests s) (task_location t);
             s' = s\<lparr>tasks := take i (tasks s) @ drop (Suc i) (tasks s), requests := log'\<rparr>
         in case found of
              None \<Rightarrow> s'
            | Some device \<Rightarrow>
                s'\<lparr>devices := map_set (devices s') (task_location t) (device\<lparr>ip := task_address t\<rparr>)\<rparr>))"

text \<open>
  \<^verbatim>\<open>cleanup\<close>, \<^verbatim>\<open>resolve\<close>, the \<^verbatim>\<open>error\<close> handler and the timeout callback. A callback
  returns the exception that escapes it, if any: \<^verbatim>\<open>socket.close()\<close> throws on a socket
  that is already closed. A promise keeps the first value it is resolved with.
\<close>

definition cleanup :: "scan \<Rightarrow> error option \<times> scan" where
  "cleanup s =
     (let s1 = s\<lparr>timer := False\<rparr>
      in if \<not> socket_open s1 then (Some (Error ''Not running''), s1)
         else (None, s1\<lparr>socket_open := False, active := False\<rparr>))"

definition resolve :: "scan \<Rightarrow> descriptor list \<Rightarrow> scan" where
  "resolve s v = (if resolved s = None then s\<lparr>resolved := Some v\<rparr> else s)"

definition on_error :: "scan \<Rightarrow> error option \<times> scan" where
  "on_error s =
     (case cleanup s of
        (Some e, s') \<Rightarrow> (Some e, s')
      | (None, s') \<Rightarrow> (None, resolve s' []))"

definition on_timeout :: "scan \<Rightarrow> error option \<times> scan" where
  "on_timeout s =
     (case cleanup s of
        (Some e, s') \<Rightarrow> (Some e, s')
      | (None, s') \<Rightarrow> (None, resolve s' (map_values (devices s'))))"

text \<open>
  The start of \<^verbatim>\<open>discover\<close>. The socket layer decides whether \<^verbatim>\<open>bind\<close> fails (it then
  emits \<^verbatim>\<open>error\<close>) and whether \<^verbatim>\<open>setBroadcast\<close> and \<^verbatim>\<open>addMembership\<close> throw, and
  \<^verbatim>\<open>Math.random\<close> gives \<^verbatim>\<open>mx\<close>.
\<close>

record socket_env =
  bind_error :: "error option"
  broadcast_error :: "error option"
  membership_error :: "string \<Rightarrow> error option"
  mx :: nat

definition CRLF :: string where
  "CRLF = [CHR 0x0D, CHR 0x0A]"

definition searchMsg :: "nat \<Rightarrow> string" where
  "searchMsg n =
     ''M-SEARCH * HTTP/1.1'' @ CRLF @
     ''HOST: 239.255.255.250:1900'' @ CRLF @
     ''MAN: \"ssdp:discover\"'' @ CRLF @
     ''MX: '' @ show_nat n @ CRLF @
     ''ST: urn:schemas-upnp-org:service:AVTransport:1'' @ CRLF @
     CRLF"

definition new_scan :: scan where
  "new_scan = \<lparr>devices = [], tasks = [], requests = [], socket_open = True, active = True,
                timer = False, listening = False, datagrams = [], resolved = None\<rparr>"

text \<open>The callback of \<^verbatim>\<open>socket.bind\<close>.\<close>

definition on_listening :: "socket_env \<Rightarrow> scan \<Rightarrow> error option \<times> scan" where
  "on_listening env s =
     (case broadcast_error env of
        Some e \<Rightarrow> (Some e, s)
      | None \<Rightarrow>
     (case membership_error env ''239.255.255.250'' of
        Some e \<Rightarrow> (Some e, s)
      | None \<Rightarrow>
     (case membership_error env ''224.0.0.251'' of
        Some e \<Rightarrow> (Some e, s)
      | None \<Rightarrow>
          (None, s\<lparr>datagrams := datagrams s @
                       [(''239.255.255.250'', searchMsg (mx env)),
                        (''255.255.255.255'', searchMsg (mx env))],
                    timer := True, listening := True\<rparr>))))"

definition discover_start :: "socket_env \<Rightarrow> error option \<times> scan" where
  "discover_start env =
     (case bind_error env of
        Some err \<Rightarrow> on_error new_scan
      | None \<Rightarrow> on_listening env new_scan)"

text \<open>
  What happens next, in any order: a datagram arrives, a resolution under way finishes,
  the timer fires, the socket emits an error. A closed socket delivers nothing and a
  cleared timer does not fire. An exception that escapes a callback ends the run.
\<close>

datatype event = Message string string | Resolved nat | Timeout | SocketError error

definition scan_step :: "xml_parser \<Rightarrow> network \<Rightarrow> scan \<Rightarrow> event \<Rightarrow> error option \<times> scan" where
  "scan_step xml net s ev =
     (case ev of
        Message msg address \<Rightarrow>
          if listening s \<and> socket_open s then (None, on_message s msg address) else (None, s)
      | Resolved i \<Rightarrow> (None, on_resolved xml net s i)
      | Timeout \<Rightarrow> if timer s then on_timeout s else (None, s)
      | SocketError err \<Rightarrow> if socket_open s then on_error s else (None, s))"

fun run :: "xml_parser \<Rightarrow> network \<Rightarrow> scan \<Rightarrow> event list \<Rightarrow> error option \<times> scan" where
  "run xml net s [] = (None, s)"
| "run xml net s (ev # evs) =
     (case scan_step xml net s ev of
        (Some e, s') \<Rightarrow> (Some e, s')
      | (None, s') \<Rightarrow> run xml net s' evs)"

section \<open>DLNAController\<close>








record details =
  avTransport :: "service option"
  details_controlURL :: js










record play_result =
  success :: bool
  error :: "string option"



section \<open>Notions used to state the properties\<close>

text \<open>The strings of a list joined with a separator, the inverse of \<^verbatim>\<open>split\<close>.\<close>

fun join_with :: "char \<Rightarrow> string list \<Rightarrow> string" where
  "join_with c [] = []"
| "join_with c [g] = g"
| "join_with c (g # h # gs) = g @ c # join_with c (h # gs)"



section \<open>Example inputs\<close>

definition example_description :: js where
  "example_description =
     JObj [(''root'', JObj [(''device'', JObj
       [(''deviceType'', JStr ''urn:schemas-upnp-org:device:MediaRenderer:1''),
        (''friendlyName'', JStr '' Living Room TV ''),
        (''serviceList'', JObj [(''service'', JArr
           [JObj [(''serviceType'', JStr ''urn:schemas-upnp-org:service:RenderingControl:1''),
                  (''controlURL'', JStr ''/upnp/control/RenderingControl'')],
            JObj [(''serviceType'', JStr ''urn:schemas-upnp-org:service:AVTransport:1''),
                  (''controlURL'', JStr ''/upnp/control/AVTransport'')]])])])])]"


definition example_xml :: xml_parser where
  "example_xml text = (if text = ''<root/>'' then Inr example_description else Inr (JStr []))"

definition network_500 :: network where
  "network_500 log req =
     (if http_method req = ''GET'' then Inr \<lparr>status = 200, body = ''<root/>''\<rparr>
      else Inr \<lparr>status = 500, body = ''boom''\<rparr>)"


definition quiet_env :: socket_env where
  "quiet_env = \<lparr>bind_error = None, broadcast_error = None, membership_error = (\<lambda>g. None), mx = 2\<rparr>"

definition datagram :: "string \<Rightarrow> string" where
  "datagram loc = ''HTTP/1.1 200 OK'' @ CRLF @ ''LOCATION: '' @ loc @ CRLF @ CRLF"

definition other_datagram :: string where
  "other_datagram = ''HTTP/1.1 200 OK'' @ CRLF @ ''ST: upnp:rootdevice'' @ CRLF @ CRLF"

definition example_events :: "event list" where
  "example_events =
     [Message (datagram ''http://192.168.1.5:8080/desc.xml'') ''192.168.1.5'',
      Message (datagram ''http://192.168.1.5:8080/desc.xml'') ''192.168.1.5'',
      Message other_datagram ''192.168.1.7'',
      Message (datagram ''http://192.168.1.6:8080/desc.xml'') ''192.168.1.6'',
      Resolved 0, Resolved 0, Resolved 0, Timeout]"

definition example_descriptor :: "string \<Rightarrow> descriptor" where
  "example_descriptor host =
     \<lparr>name = ''Living Room TV'', type = ''MediaRenderer'', manufacturer = ''Unknown Manufacturer'',
      controlURL = Some (''http://'' @ host @ '':8080/upnp/control/AVTransport''),
      ip = host, originalLocation = ''http://'' @ host @ '':8080/desc.xml'', port = ''8080''\<rparr>"

text \<open>
  The service search as the specification words it: the object nodes of a tree in
  depth-first document order, and the first of them whose \<^verbatim>\<open>serviceType\<close> is a text that
  begins with the AVTransport prefix.
\<close>

fun nodes :: "js \<Rightarrow> js list"
  and nodes_of_items :: "js list \<Rightarrow> js list"
  and nodes_of_values :: "(string \<times> js) list \<Rightarrow> js list"
where
  "nodes JUndef = []"
| "nodes (JStr s) = []"
| "nodes (JArr xs) = nodes_of_items xs"
| "nodes (JObj kvs) = JObj kvs # nodes_of_values kvs"
| "nodes_of_items [] = []"
| "nodes_of_items (x # xs) = nodes x @ nodes_of_items xs"
| "nodes_of_values [] = []"
| "nodes_of_values (kv # kvs) = nodes (snd kv) @ nodes_of_values kvs"

definition field :: "js \<Rightarrow> string \<Rightarrow> js" where
  "field n k = (case n of JObj kvs \<Rightarrow> (case map_of kvs k of None \<Rightarrow> JUndef | Some v \<Rightarrow> v) | _ \<Rightarrow> JUndef)"

definition is_AVTransport :: "js \<Rightarrow> bool" where
  "is_AVTransport n = (case field n ''serviceType'' of JStr t \<Rightarrow> prefix AVTransport_prefix t | _ \<Rightarrow> False)"

definition not_text :: "js \<Rightarrow> bool" where
  "not_text n = (case field n ''serviceType'' of JObj kvs \<Rightarrow> True | JArr xs \<Rightarrow> True | _ \<Rightarrow> False)"

definition service_of :: "js \<Rightarrow> service" where
  "service_of n = \<lparr>serviceType = field n ''serviceType'', controlURL = field n ''controlURL''\<rparr>"

definition first_service :: "js \<Rightarrow> service option" where
  "first_service v = map_option service_of (find is_AVTransport (nodes v))"

definition search_outcome :: "js list \<Rightarrow> error + service option" where
  "search_outcome ns =
     (case find (\<lambda>n. is_AVTransport n \<or> not_text n) ns of
        None \<Rightarrow> Inr None
      | Some n \<Rightarrow> if is_AVTransport n then Inr (Some (service_of n))
                  else Inl (TypeError ''node.serviceType?.startsWith is not a function''))"

definition fixed_xml :: "js \<Rightarrow> xml_parser" where
  "fixed_xml doc text = Inr doc"

definition description_of :: "js \<Rightarrow> js" where
  "description_of serviceList =
     JObj [(''root'', JObj [(''device'', JObj
       [(''deviceType'', JStr ''urn:schemas-upnp-org:device:MediaRenderer:1''),
        (''friendlyName'', JStr ''Bedroom Speaker''),
        (''serviceList'', serviceList)])])]"

definition AVTransport_2 :: js where
  "AVTransport_2 =
     JObj [(''serviceType'', JStr ''urn:schemas-upnp-org:service:AVTransport:2''),
           (''controlURL'', JStr ''/ctl'')]"

definition AVTransport_1 :: js where
  "AVTransport_1 =
     JObj [(''serviceType'', JStr ''urn:schemas-upnp-org:service:AVTransport:1''),
           (''controlURL'', JStr ''/ctl'')]"

definition RenderingControl_with_attribute :: js where
  "RenderingControl_with_attribute =
     JObj [(''serviceType'', JObj [(''_'', JStr ''urn:schemas-upnp-org:service:RenderingControl:1''),
                                   (''id'', JStr ''rc'')]),
           (''controlURL'', JStr ''/rc'')]"

definition no_AVTransport :: js where
  "no_AVTransport =
     JObj [(''service'', JArr
       [JObj [(''serviceType'', JStr ''urn:schemas-upnp-org:service:RenderingControl:1''),
              (''controlURL'', JStr ''/rc'')],
        JObj [(''serviceType'', JStr ''urn:schemas-upnp-org:service:ConnectionManager:1''),
              (''controlURL'', JStr ''/cm'')]])]"

definition bad_controlURL :: js where
  "bad_controlURL =
     JObj [(''service'', JObj
       [(''serviceType'', JStr ''urn:schemas-upnp-org:service:AVTransport:1''),
        (''controlURL'', JStr ''http://192.168.1.5:99999/ctl'')])]"

definition unreachable_descriptor :: descriptor where
  "unreachable_descriptor =
     \<lparr>name = ''Bedroom Speaker'', type = ''MediaRenderer'', manufacturer = ''Unknown Manufacturer'',
      controlURL = None, ip = ''192.168.1.5'',
      originalLocation = ''http://192.168.1.5:8080/desc.xml'', port = ''8080''\<rparr>"

definition port_of_location :: "descriptor \<Rightarrow> bool" where
  "port_of_location d =
     (case URL_new (originalLocation d) None of None \<Rightarrow> False | Some u \<Rightarrow> port d = url_port u)"

definition ports_kept :: "scan \<Rightarrow> bool" where
  "ports_kept s =
     (list_all (\<lambda>kv. port_of_location (snd kv)) (devices s)
      \<and> (case resolved s of None \<Rightarrow> True | Some r \<Rightarrow> list_all port_of_location r))"

section \<open>Strings\<close>

lemma split_on_nonempty: "split_on c s \<noteq> []"
  by (induction s) (auto simp: Let_def)

lemma split_on_no_sep: "c \<notin> set g \<Longrightarrow> split_on c g = [g]"
  by (induction g) (auto simp: Let_def)

lemma split_on_append_sep: "c \<notin> set g \<Longrightarrow> split_on c (g @ c # rest) = g # split_on c rest"
  by (induction g) (auto simp: Let_def)

lemma split_on_join:
  "segs \<noteq> [] \<Longrightarrow> (\<forall>g \<in> set segs. c \<notin> set g) \<Longrightarrow> split_on c (join_with c segs) = segs"
  by (induction c segs rule: join_with.induct) (auto simp: split_on_no_sep split_on_append_sep)

lemma join_split_on: "join_with c (split_on c s) = s"
proof (induction s)
  case Nil
  then show ?case by simp
next
  case (Cons x xs)
  obtain g gs where "split_on c xs = g # gs"
    using split_on_nonempty[of c xs] by (cases "split_on c xs") auto
  with Cons show ?case by (cases gs) (auto simp: Let_def)
qed

lemma split_on_segments: "g \<in> set (split_on c s) \<Longrightarrow> c \<notin> set g"
proof (induction s arbitrary: g)
  case Nil
  then show ?case by simp
next
  case (Cons x xs)
  obtain h hs where "split_on c xs = h # hs"
    using split_on_nonempty[of c xs] by (cases "split_on c xs") auto
  with Cons show ?case by (auto simp: Let_def split: if_splits)
qed

section \<open>The device type\<close>

lemma parseDeviceType_join:
  assumes "segs \<noteq> []" and "\<forall>g \<in> set segs. CHR '':'' \<notin> set g"
  shows "parseDeviceType (JStr (join_with (CHR '':'') segs)) =
           Inr (if 4 \<le> length segs then segs ! 3 else ''MediaRenderer'')"
proof (cases "join_with (CHR '':'') segs = []")
  case True
  with assms have "split_on (CHR '':'') [] = segs"
    using split_on_join[of segs "CHR '':''"] by simp
  then have "segs = [[]]" by simp
  with True show ?thesis by (simp add: parseDeviceType_def)
next
  case False
  with assms show ?thesis by (simp add: parseDeviceType_def split_on_join)
qed

text \<open>
  C7. Every string \<open>t\<close> is its colon-free segments joined by colons, and
  \<^verbatim>\<open>parseDeviceType\<close> of a string with the segments \<open>segs\<close> is the segment at index 3
  when there are at least four and \<^verbatim>\<open>MediaRenderer\<close> otherwise;
  \<^verbatim>\<open>urn:schemas-upnp-org:device:MediaRenderer:1\<close> gives \<^verbatim>\<open>MediaRenderer\<close>, and so does an
  absent device type.
\<close>

theorem parseDeviceType_index_3:
  "(segs \<noteq> [] \<and> (\<forall>g \<in> set segs. CHR '':'' \<notin> set g) \<longrightarrow>
      parseDeviceType (JStr (join_with (CHR '':'') segs)) =
        Inr (if 4 \<le> length segs then segs ! 3 else ''MediaRenderer''))
   \<and> (\<exists>ss. ss \<noteq> [] \<and> (\<forall>g \<in> set ss. CHR '':'' \<notin> set g) \<and> t = join_with (CHR '':'') ss)
   \<and> parseDeviceType (JStr t) =
        Inr (if 4 \<le> length (split_on (CHR '':'') t) then split_on (CHR '':'') t ! 3
             else ''MediaRenderer'')
   \<and> parseDeviceType (JStr ''urn:schemas-upnp-org:device:MediaRenderer:1'') = Inr ''MediaRenderer''
   \<and> parseDeviceType JUndef = Inr ''MediaRenderer''"
proof (intro conjI impI)
  assume "segs \<noteq> [] \<and> (\<forall>g \<in> set segs. CHR '':'' \<notin> set g)"
  then show "parseDeviceType (JStr (join_with (CHR '':'') segs)) =
        Inr (if 4 \<le> length segs then segs ! 3 else ''MediaRenderer'')"
    by (simp add: parseDeviceType_join)
next
  show "\<exists>ss. ss \<noteq> [] \<and> (\<forall>g \<in> set ss. CHR '':'' \<notin> set g) \<and> t = join_with (CHR '':'') ss"
    using split_on_nonempty[of "CHR '':''" t] split_on_segments[of _ "CHR '':''" t]
      join_split_on[of "CHR '':''" t]
    by metis
next
  show "parseDeviceType (JStr t) =
        Inr (if 4 \<le> length (split_on (CHR '':'') t) then split_on (CHR '':'') t ! 3
             else ''MediaRenderer'')"
    by (cases t) (simp_all add: parseDeviceType_def)
next
  show "parseDeviceType (JStr ''urn:schemas-upnp-org:device:MediaRenderer:1'') = Inr ''MediaRenderer''"
    by (simp add: parseDeviceType_def)
next
  show "parseDeviceType JUndef = Inr ''MediaRenderer''"
    by (simp add: parseDeviceType_def)
qed

theorem parseDeviceType_index_3_witness:
  "join_with (CHR '':'') [''a'', ''b'', ''c'', ''Printer'', ''2''] = ''a:b:c:Printer:2''
   \<and> parseDeviceType (JStr ''a:b:c:Printer:2'') = Inr ''Printer''
   \<and> parseDeviceType (JStr ''a:b:c'') = Inr ''MediaRenderer''"
  using parseDeviceType_index_3[of "[''a'', ''b'', ''c'', ''Printer'', ''2'']" "''a:b:c''"]
  by simp

section \<open>The control client\<close>



















section \<open>The header mapping\<close>

lemma indexOf_none: "c \<notin> set s \<Longrightarrow> indexOf c s = None"
  by (induction s) auto

lemma indexOf_first: "c \<notin> set k \<Longrightarrow> indexOf c (k @ c # v) = Some (length k)"
  by (induction k) auto

text \<open>
  C6. A line without a colon leaves the header mapping as it is. A line with a colon is
  split at its first colon into \<open>k\<close> and \<open>v\<close>: when the trimmed, lower-cased key and the
  trimmed value are not empty, the mapping gets the value under that key (but for the key
  \<^verbatim>\<open>__proto__\<close>), and otherwise the line is dropped too. The mapping of a datagram is
  the fold of that step over its lines, so a location with further colons is kept whole.
\<close>

theorem header_mapping:
  "(CHR '':'' \<notin> set line \<longrightarrow> header_step acc line = acc)
   \<and> (CHR '':'' \<in> set line \<longrightarrow> (\<exists>k v. line = k @ CHR '':'' # v \<and> CHR '':'' \<notin> set k))
   \<and> (CHR '':'' \<notin> set k \<longrightarrow>
        header_step acc (k @ CHR '':'' # v) =
          (if toLowerCase (trim k) \<noteq> [] \<and> trim v \<noteq> [] \<and> toLowerCase (trim k) \<noteq> ''__proto__''
           then acc(toLowerCase (trim k) \<mapsto> trim v) else acc))
   \<and> parse_headers msg = foldl header_step Map.empty (split_crlf msg)
   \<and> parse_headers (''HTTP/1.1 200 OK'' @ CRLF @ ''LOCATION: http://host:8080/desc.xml'' @ CRLF @ CRLF)
        ''location'' = Some ''http://host:8080/desc.xml''"
proof (intro conjI impI)
  assume "CHR '':'' \<notin> set line"
  then show "header_step acc line = acc" by (simp add: header_step_def indexOf_none)
next
  assume "CHR '':'' \<in> set line"
  then show "\<exists>k v. line = k @ CHR '':'' # v \<and> CHR '':'' \<notin> set k"
    by (metis split_list_first)
next
  assume "CHR '':'' \<notin> set k"
  then show "header_step acc (k @ CHR '':'' # v) =
          (if toLowerCase (trim k) \<noteq> [] \<and> trim v \<noteq> [] \<and> toLowerCase (trim k) \<noteq> ''__proto__''
           then acc(toLowerCase (trim k) \<mapsto> trim v) else acc)"
    by (simp add: header_step_def indexOf_first Let_def)
next
  show "parse_headers msg = foldl header_step Map.empty (split_crlf msg)"
    by (simp add: parse_headers_def)
next
  show "parse_headers (''HTTP/1.1 200 OK'' @ CRLF @ ''LOCATION: http://host:8080/desc.xml'' @ CRLF @ CRLF)
        ''location'' = Some ''http://host:8080/desc.xml''"
    by (simp add: parse_headers_def CRLF_def header_step_def Let_def trim_def is_space_def
        toLowerCase_def lower_char_def lower_table_def)
qed

theorem header_mapping_witness:
  "header_step Map.empty ''HTTP/1.1 200 OK'' ''location'' = None
   \<and> header_step Map.empty ''Location : http://host:8080/desc.xml '' ''location''
       = Some ''http://host:8080/desc.xml''"
  using header_mapping[of "''HTTP/1.1 200 OK''" Map.empty "''Location ''" "'' http://host:8080/desc.xml ''"]
  by (simp add: trim_def is_space_def toLowerCase_def lower_char_def lower_table_def)

section \<open>Resolving a description\<close>

lemma describe_Some:
  assumes "describe xml loc res = Inr (Some d)"
  shows "\<exists>result device sl av u fn n dt t mf m.
           ok res \<and> xml (body res) = Inr result \<and> device_of result = Inr device \<and> truthy device
         \<and> get_prop device ''serviceList'' = Inr sl \<and> findAVTransportService sl = Inr (Some av)
         \<and> URL_new loc None = Some u
         \<and> get_prop device ''friendlyName'' = Inr fn \<and> trim_or fn ''Unnamed Device'' = Inr n
         \<and> get_prop device ''deviceType'' = Inr dt \<and> parseDeviceType dt = Inr t
         \<and> get_prop device ''manufacturer'' = Inr mf \<and> trim_or mf ''Unknown Manufacturer'' = Inr m
         \<and> d = \<lparr>name = n, type = t, manufacturer = m,
                 controlURL = normalizeURL loc (service.controlURL av),
                 ip = ''Pending'', originalLocation = loc, port = url_port u\<rparr>"
  using assms
  by (auto simp: describe_def then_do_def split: if_splits sum.splits option.splits)

lemma parseDeviceDescription_Some:
  assumes "fst (parseDeviceDescription xml net log loc) = Some d"
  shows "isValidHttpUrl loc \<and> (\<exists>res. net log (GET loc) = Inr res \<and> describe xml loc res = Inr (Some d))"
  using assms
  by (auto simp: parseDeviceDescription_def fetch_def then_do_def split: if_splits sum.splits prod.splits)

lemma parseDeviceDescription_log:
  "snd (parseDeviceDescription xml net log loc) = (if isValidHttpUrl loc then log @ [GET loc] else log)"
  by (auto simp: parseDeviceDescription_def fetch_def split: sum.splits prod.splits)

section \<open>The scan\<close>

lemma replace_keys: "map fst (map (\<lambda>kv. if fst kv = k then (k, v) else kv) m) = map fst m"
  by (induction m) auto

lemma replace_all: "list_all P m \<Longrightarrow> P (k, v) \<Longrightarrow> list_all P (map (\<lambda>kv. if fst kv = k then (k, v) else kv) m)"
  by (induction m) auto

lemma replace_lookup:
  "k \<in> set (map fst m) \<Longrightarrow> map_of (map (\<lambda>kv. if fst kv = k then (k, v) else kv) m) k = Some v"
  by (induction m) auto

lemma append_lookup: "k \<notin> set (map fst m) \<Longrightarrow> map_of (m @ [(k, v)]) k = Some v"
  by (induction m) auto

lemma map_set_keys:
  "map fst (map_set m k v) = (if map_has m k then map fst m else map fst m @ [k])"
  by (simp add: map_set_def replace_keys)


lemma map_set_all: "list_all P m \<Longrightarrow> P (k, v) \<Longrightarrow> list_all P (map_set m k v)"
  by (simp add: map_set_def replace_all)

lemma map_set_has: "map_has (map_set m k v) l = (l = k \<or> map_has m l)"
proof (cases "map_has m k")
  case True
  then show ?thesis
    unfolding map_has_def[of "map_set m k v"] map_set_keys by (auto simp: map_has_def)
next
  case False
  then show ?thesis
    unfolding map_has_def[of "map_set m k v"] map_set_keys by (auto simp: map_has_def)
qed

lemma map_set_lookup: "map_of (map_set m k v) k = Some v"
  by (simp add: map_set_def map_has_def replace_lookup append_lookup del: set_map map_of_append)


lemma on_message_devices: "devices (on_message s msg a) = devices s \<and> resolved (on_message s msg a) = resolved s"
  by (simp add: on_message_def split: option.splits)




lemma on_resolved_resolved: "resolved (on_resolved xml net s i) = resolved s"
  by (cases "fst (parseDeviceDescription xml net (requests s) (task_location (tasks s ! i)))")
     (simp_all add: on_resolved_def Let_def case_prod_beta)

lemma on_resolved_devices:
  "devices (on_resolved xml net s i) =
     (if length (tasks s) \<le> i then devices s
      else case fst (parseDeviceDescription xml net (requests s) (task_location (tasks s ! i))) of
             None \<Rightarrow> devices s
           | Some d \<Rightarrow> map_set (devices s) (task_location (tasks s ! i))
                        (d\<lparr>ip := task_address (tasks s ! i)\<rparr>))"
  by (simp add: on_resolved_def Let_def case_prod_beta split: option.splits)


lemma on_resolved_has: "map_has (devices s) l \<Longrightarrow> map_has (devices (on_resolved xml net s i)) l"
  by (simp add: on_resolved_devices map_set_has split: option.splits)

lemma on_resolved_inserts:
  assumes "i < length (tasks s)"
    and "fst (parseDeviceDescription xml net (requests s) (task_location (tasks s ! i))) = Some d"
  shows "map_of (devices (on_resolved xml net s i)) (task_location (tasks s ! i)) =
           Some (d\<lparr>ip := task_address (tasks s ! i)\<rparr>)"
  using assms by (simp add: on_resolved_devices map_set_lookup)

lemma cleanup_devices: "cleanup s = (e, s') \<Longrightarrow> devices s' = devices s \<and> resolved s' = resolved s"
  by (auto simp: cleanup_def Let_def split: if_splits)



lemma on_error_devices: "on_error s = (e, s') \<Longrightarrow> devices s' = devices s"
  by (auto simp: on_error_def cleanup_def Let_def resolve_def split: if_splits)

lemma on_timeout_devices: "on_timeout s = (e, s') \<Longrightarrow> devices s' = devices s"
  by (auto simp: on_timeout_def cleanup_def Let_def resolve_def split: if_splits)


lemma scan_step_has: "map_has (devices s) l \<Longrightarrow> scan_step xml net s ev = (e, s') \<Longrightarrow> map_has (devices s') l"
  by (cases ev) (auto simp: scan_step_def on_message_devices on_resolved_has
      dest: on_error_devices on_timeout_devices split: if_splits)


lemma run_has: "map_has (devices s) l \<Longrightarrow> run xml net s evs = (e, s') \<Longrightarrow> map_has (devices s') l"
proof (induction evs arbitrary: s)
  case Nil
  then show ?case by simp
next
  case (Cons ev evs)
  obtain e1 s1 where st: "scan_step xml net s ev = (e1, s1)" by (cases "scan_step xml net s ev")
  with Cons.prems(1) have k: "map_has (devices s1) l" by (rule scan_step_has)
  show ?case
  proof (cases e1)
    case None
    with st Cons.prems(2) have "run xml net s1 evs = (e, s')" by simp
    with k show ?thesis by (rule Cons.IH)
  next
    case (Some x)
    with st Cons.prems(2) k show ?thesis by simp
  qed
qed


section \<open>Evaluating the URL class\<close>

lemmas url_eval =
  URL_new_def parse_absolute_def parse_special_def parse_relative_def parse_authority_def
  parse_host_def parse_port_def parse_path_def path_part_def query_part_def fragment_part_def
  base_segments_def set_pathname_def
  clean_input_def c0_or_space_def tab_or_newline_def scan_scheme_def special_scheme_def
  is_alpha_def scheme_char_def is_digit_def is_sep_def auth_end_def
  toLowerCase_def lower_char_def lower_table_def forbidden_host_def
  ends_in_number_def plain_ipv4_def decimal_octet_def digits_value_def digit_value_def
  default_port_def show_nat.simps digit_char_def double_dot_def single_dot_def
  encode_def path_set_def query_set_def fragment_set_def c0_or_high_def pct_def hex_digit_def
  origin_def href_def url_host_def Let_def

lemma url1: "URL_new ''http://192.168.1.5:8080/desc.xml'' None =
   Some \<lparr>protocol = ''http:'', hostname = ''192.168.1.5'', url_port = ''8080'',
         pathname = ''/desc.xml'', query = None, fragment = None\<rparr>"
  by (simp add: url_eval)

lemma norm1: "normalizeURL ''http://192.168.1.5:8080/desc.xml'' (JStr ''/upnp/control/AVTransport'') =
   Some ''http://192.168.1.5:8080/upnp/control/AVTransport''"
  by (simp add: normalizeURL_def url1) (simp add: url_eval)

lemma norm80: "normalizeURL ''http://192.168.1.5:80/desc.xml'' (JStr ''/upnp/control/AVTransport'') =
   Some ''http://192.168.1.5/upnp/control/AVTransport''"
  by (simp add: normalizeURL_def url_eval)

section \<open>The scan, evaluated\<close>

lemmas header_eval =
  parse_headers_def CRLF_def header_step_def Let_def trim_def is_space_def
  toLowerCase_def lower_char_def lower_table_def datagram_def

lemma headers1: "parse_headers (datagram ''http://192.168.1.5:8080/desc.xml'') ''location'' = Some ''http://192.168.1.5:8080/desc.xml''"
  by (simp add: header_eval)

lemma headers2: "parse_headers (datagram ''http://192.168.1.6:8080/desc.xml'') ''location'' = Some ''http://192.168.1.6:8080/desc.xml''"
  by (simp add: header_eval)

lemma headers3: "parse_headers other_datagram ''location'' = None"
  by (simp add: header_eval other_datagram_def)

lemma url2: "URL_new ''http://192.168.1.6:8080/desc.xml'' None =
   Some \<lparr>protocol = ''http:'', hostname = ''192.168.1.6'', url_port = ''8080'',
         pathname = ''/desc.xml'', query = None, fragment = None\<rparr>"
  by (simp add: url_eval)

lemma norm6: "normalizeURL ''http://192.168.1.6:8080/desc.xml'' (JStr ''/upnp/control/AVTransport'') =
   Some ''http://192.168.1.6:8080/upnp/control/AVTransport''"
  by (simp add: normalizeURL_def url2) (simp add: url_eval)

lemma example_service:
  "findAVTransportService (JObj [(''service'', JArr
           [JObj [(''serviceType'', JStr ''urn:schemas-upnp-org:service:RenderingControl:1''),
                  (''controlURL'', JStr ''/upnp/control/RenderingControl'')],
            JObj [(''serviceType'', JStr ''urn:schemas-upnp-org:service:AVTransport:1''),
                  (''controlURL'', JStr ''/upnp/control/AVTransport'')]])]) =
   Inr (Some \<lparr>serviceType = JStr ''urn:schemas-upnp-org:service:AVTransport:1'',
               controlURL = JStr ''/upnp/control/AVTransport''\<rparr>)"
  by (simp add: AVTransport_prefix_def)

lemmas describe_eval =
  parseDeviceDescription_def isValidHttpUrl_def fetch_def GET_def network_500_def ok_def
  describe_def then_do_def example_xml_def example_description_def device_of_def
  AVTransport_prefix_def parseDeviceType_def trim_or_def trim_def is_space_def example_descriptor_def

lemma resolve1:
  "parseDeviceDescription example_xml network_500 log ''http://192.168.1.5:8080/desc.xml'' =
     (Some ((example_descriptor ''192.168.1.5'')\<lparr>ip := ''Pending''\<rparr>), log @ [GET ''http://192.168.1.5:8080/desc.xml''])"
  by (simp add: describe_eval url1 norm1)

lemma resolve2:
  "parseDeviceDescription example_xml network_500 log ''http://192.168.1.6:8080/desc.xml'' =
     (Some ((example_descriptor ''192.168.1.6'')\<lparr>ip := ''Pending''\<rparr>), log @ [GET ''http://192.168.1.6:8080/desc.xml''])"
  by (simp add: describe_eval url2 norm6)

lemmas scan_eval = discover_start_def quiet_env_def on_listening_def new_scan_def
      scan_step_def on_message_def headers1 headers2 headers3 map_has_def map_set_def
      on_resolved_def resolve1 resolve2 on_timeout_def cleanup_def resolve_def map_values_def
      example_descriptor_def Let_def

lemma example_scan:
  "run example_xml network_500 (snd (discover_start quiet_env)) example_events =
     (None,
      \<lparr>devices = [(''http://192.168.1.5:8080/desc.xml'', example_descriptor ''192.168.1.5''),
                  (''http://192.168.1.6:8080/desc.xml'', example_descriptor ''192.168.1.6'')],
       tasks = [],
       requests = [GET ''http://192.168.1.5:8080/desc.xml'', GET ''http://192.168.1.5:8080/desc.xml'',
                   GET ''http://192.168.1.6:8080/desc.xml''],
       socket_open = False, active = False, timer = False, listening = True,
       datagrams = [(''239.255.255.250'', searchMsg 2), (''255.255.255.255'', searchMsg 2)],
       resolved = Some [example_descriptor ''192.168.1.5'', example_descriptor ''192.168.1.6'']\<rparr>)"
  by (simp add: example_events_def scan_eval)



section \<open>The service search\<close>

lemma find_append: "find P (xs @ ys) = (case find P xs of None \<Rightarrow> find P ys | Some x \<Rightarrow> Some x)"
  by (induction xs) auto

lemma search_outcome_append:
  "search_outcome (xs @ ys) =
     (case search_outcome xs of Inl e \<Rightarrow> Inl e | Inr (Some f) \<Rightarrow> Inr (Some f) | Inr None \<Rightarrow> search_outcome ys)"
  by (simp add: search_outcome_def find_append split: option.splits)

lemma search_outcome_Nil: "search_outcome [] = Inr None"
  by (simp add: search_outcome_def)

lemma findAVTransportService_outcome:
  "findAVTransportService v = search_outcome (nodes v)"
  "find_in_items xs = search_outcome (nodes_of_items xs)"
  "find_in_values kvs = search_outcome (nodes_of_values kvs)"
proof (induction v and xs and kvs rule: findAVTransportService_find_in_items_find_in_values.induct)
  case (4 kvs)
  show ?case
  proof (cases "case map_of kvs ''serviceType'' of None \<Rightarrow> JUndef | Some v \<Rightarrow> v")
    case JUndef
    then have "\<not> is_AVTransport (JObj kvs)" "\<not> not_text (JObj kvs)"
      by (simp_all add: is_AVTransport_def not_text_def field_def)
    with JUndef 4(1) show ?thesis by (simp add: search_outcome_def)
  next
    case (JStr t)
    show ?thesis
    proof (cases "prefix AVTransport_prefix t")
      case True
      with JStr show ?thesis
        by (simp add: search_outcome_def is_AVTransport_def field_def service_of_def)
    next
      case False
      with JStr have "\<not> is_AVTransport (JObj kvs)" "\<not> not_text (JObj kvs)"
        by (simp_all add: is_AVTransport_def not_text_def field_def)
      with JStr False 4(2) show ?thesis by (simp add: search_outcome_def)
    qed
  next
    case (JObj x)
    then have "\<not> is_AVTransport (JObj kvs)" "not_text (JObj kvs)"
      by (simp_all add: is_AVTransport_def not_text_def field_def)
    with JObj show ?thesis by (simp add: search_outcome_def)
  next
    case (JArr x)
    then have "\<not> is_AVTransport (JObj kvs)" "not_text (JObj kvs)"
      by (simp_all add: is_AVTransport_def not_text_def field_def)
    with JArr show ?thesis by (simp add: search_outcome_def)
  qed
qed (simp_all add: search_outcome_Nil search_outcome_append split: sum.splits option.splits)

lemma search_outcome_first:
  "list_all (\<lambda>n. \<not> not_text n) (takeWhile (\<lambda>n. \<not> is_AVTransport n) ns) \<Longrightarrow>
   search_outcome ns = Inr (map_option service_of (find is_AVTransport ns))"
  by (induction ns) (auto simp: search_outcome_def)

lemma search_outcome_Some:
  "search_outcome ns = Inr (Some f) \<Longrightarrow> \<exists>n. find is_AVTransport ns = Some n \<and> f = service_of n"
  by (induction ns) (auto simp: search_outcome_def split: if_splits option.splits)

lemma describe_service:
  "describe xml loc res = Inr (Some d) \<Longrightarrow>
   \<exists>result device sl av. xml (body res) = Inr result \<and> device_of result = Inr device
     \<and> get_prop device ''serviceList'' = Inr sl \<and> findAVTransportService sl = Inr (Some av)
     \<and> descriptor.controlURL d = normalizeURL loc (service.controlURL av)"
  by (auto simp: describe_def then_do_def split: if_splits sum.splits option.splits)

lemma included_has_service:
  assumes "fst (parseDeviceDescription xml net log loc) = Some d"
  shows "\<exists>res result device sl n. net log (GET loc) = Inr res \<and> xml (body res) = Inr result
           \<and> device_of result = Inr device \<and> get_prop device ''serviceList'' = Inr sl
           \<and> find is_AVTransport (nodes sl) = Some n"
proof -
  from assms obtain res where res: "net log (GET loc) = Inr res" "describe xml loc res = Inr (Some d)"
    using parseDeviceDescription_Some by blast
  from res(2) obtain result device sl av where
    d: "xml (body res) = Inr result" "device_of result = Inr device"
       "get_prop device ''serviceList'' = Inr sl" "findAVTransportService sl = Inr (Some av)"
    using describe_service by blast
  from d(4) have "search_outcome (nodes sl) = Inr (Some av)"
    by (simp add: findAVTransportService_outcome)
  then obtain n where "find is_AVTransport (nodes sl) = Some n"
    using search_outcome_Some by blast
  with res(1) d(1,2,3) show ?thesis by blast
qed

lemma excluded_no_AVTransport:
  "fst (parseDeviceDescription (fixed_xml (description_of no_AVTransport)) network_500 []
     ''http://192.168.1.5:8080/desc.xml'') = None"
  by (simp add: parseDeviceDescription_def isValidHttpUrl_def url1 fetch_def GET_def network_500_def
      then_do_def describe_def ok_def fixed_xml_def description_of_def device_of_def
      no_AVTransport_def AVTransport_prefix_def)

text \<open>
  C3, as the code has it. The search visits the object nodes of the service list depth
  first in document order. As long as no node before the first AVTransport node has a
  \<^verbatim>\<open>serviceType\<close> that is not text, it returns the first node whose \<^verbatim>\<open>serviceType\<close> begins
  with the prefix, version 1 or 2 alike, and nothing when there is none. A \<^verbatim>\<open>serviceType\<close>
  that is an object or an array, when it is reached first, raises a TypeError instead. A
  descriptor is returned only for a description whose service list has such a node: one
  with \<^verbatim>\<open>RenderingControl\<close> and \<^verbatim>\<open>ConnectionManager\<close> alone is left out.
\<close>

theorem service_search_depth_first:
  "(list_all (\<lambda>n. \<not> not_text n) (takeWhile (\<lambda>n. \<not> is_AVTransport n) (nodes v)) \<longrightarrow>
      findAVTransportService v = Inr (first_service v))
   \<and> findAVTransportService v = search_outcome (nodes v)
   \<and> findAVTransportService (JObj [(''service'', JArr [AVTransport_1, AVTransport_2])]) =
       Inr (Some (service_of AVTransport_1))
   \<and> findAVTransportService (JObj [(''service'', AVTransport_2)]) = Inr (Some (service_of AVTransport_2))
   \<and> (fst (parseDeviceDescription xml net log loc) = Some d \<longrightarrow>
        (\<exists>res result device sl n. net log (GET loc) = Inr res \<and> xml (body res) = Inr result
           \<and> device_of result = Inr device \<and> get_prop device ''serviceList'' = Inr sl
           \<and> find is_AVTransport (nodes sl) = Some n))
   \<and> findAVTransportService no_AVTransport = Inr None
   \<and> fst (parseDeviceDescription (fixed_xml (description_of no_AVTransport)) network_500 []
          ''http://192.168.1.5:8080/desc.xml'') = None"
proof (intro conjI impI)
  assume "list_all (\<lambda>n. \<not> not_text n) (takeWhile (\<lambda>n. \<not> is_AVTransport n) (nodes v))"
  then show "findAVTransportService v = Inr (first_service v)"
    by (simp add: findAVTransportService_outcome search_outcome_first first_service_def)
next
  show "findAVTransportService v = search_outcome (nodes v)"
    by (simp add: findAVTransportService_outcome)
next
  show "findAVTransportService (JObj [(''service'', JArr [AVTransport_1, AVTransport_2])]) =
       Inr (Some (service_of AVTransport_1))"
    by (simp add: AVTransport_1_def AVTransport_2_def AVTransport_prefix_def service_of_def field_def)
next
  show "findAVTransportService (JObj [(''service'', AVTransport_2)]) = Inr (Some (service_of AVTransport_2))"
    by (simp add: AVTransport_2_def AVTransport_prefix_def service_of_def field_def)
next
  assume "fst (parseDeviceDescription xml net log loc) = Some d"
  then show "\<exists>res result device sl n. net log (GET loc) = Inr res \<and> xml (body res) = Inr result
           \<and> device_of result = Inr device \<and> get_prop device ''serviceList'' = Inr sl
           \<and> find is_AVTransport (nodes sl) = Some n"
    by (rule included_has_service)
next
  show "findAVTransportService no_AVTransport = Inr None"
    by (simp add: no_AVTransport_def AVTransport_prefix_def)
next
  show "fst (parseDeviceDescription (fixed_xml (description_of no_AVTransport)) network_500 []
          ''http://192.168.1.5:8080/desc.xml'') = None"
    by (rule excluded_no_AVTransport)
qed

theorem service_search_depth_first_witness:
  "nodes (JObj [(''service'', JArr [AVTransport_1, AVTransport_2])]) =
     [JObj [(''service'', JArr [AVTransport_1, AVTransport_2])], AVTransport_1, AVTransport_2]
   \<and> first_service (JObj [(''service'', JArr [AVTransport_1, AVTransport_2])]) =
       Some (service_of AVTransport_1)
   \<and> findAVTransportService (JObj [(''service'', JArr [AVTransport_1, AVTransport_2])]) =
       Inr (first_service (JObj [(''service'', JArr [AVTransport_1, AVTransport_2])]))
   \<and> fst (parseDeviceDescription example_xml network_500 [] ''http://192.168.1.5:8080/desc.xml'') =
       Some ((example_descriptor ''192.168.1.5'')\<lparr>ip := ''Pending''\<rparr>)"
proof -
  let ?v = "JObj [(''service'', JArr [AVTransport_1, AVTransport_2])]"
  have n: "nodes ?v = [?v, AVTransport_1, AVTransport_2]"
    by (simp add: AVTransport_1_def AVTransport_2_def)
  have a: "\<not> is_AVTransport ?v" "is_AVTransport AVTransport_1" "\<not> not_text ?v"
    by (simp_all add: is_AVTransport_def not_text_def field_def AVTransport_1_def AVTransport_prefix_def)
  have h: "list_all (\<lambda>n. \<not> not_text n) (takeWhile (\<lambda>n. \<not> is_AVTransport n) (nodes ?v))"
    unfolding n using a by simp
  have f: "first_service ?v = Some (service_of AVTransport_1)"
    unfolding first_service_def n using a by simp
  have r: "fst (parseDeviceDescription example_xml network_500 [] ''http://192.168.1.5:8080/desc.xml'') =
       Some ((example_descriptor ''192.168.1.5'')\<lparr>ip := ''Pending''\<rparr>)"
    by (simp add: resolve1)
  from service_search_depth_first[of ?v example_xml network_500 "[]" "''http://192.168.1.5:8080/desc.xml''"
      "(example_descriptor ''192.168.1.5'')\<lparr>ip := ''Pending''\<rparr>"] h
  have "findAVTransportService ?v = Inr (first_service ?v)" by blast
  with n f r show ?thesis by blast
qed

text \<open>
  Against C3 as worded: in this service list the second service is an AVTransport
  service, and the first one has a \<^verbatim>\<open>serviceType\<close> element with an attribute, which
  \<^verbatim>\<open>xml2js\<close> (with \<^verbatim>\<open>mergeAttrs\<close>) delivers as an object. The search raises a TypeError
  and the device is left out, although a node with the prefix exists.
\<close>

theorem service_search_counterexample:
  "find is_AVTransport (nodes (JObj [(''service'', JArr [RenderingControl_with_attribute, AVTransport_1])]))
     = Some AVTransport_1
   \<and> findAVTransportService (JObj [(''service'', JArr [RenderingControl_with_attribute, AVTransport_1])])
     = Inl (TypeError ''node.serviceType?.startsWith is not a function'')
   \<and> fst (parseDeviceDescription
          (fixed_xml (description_of (JObj [(''service'', JArr [RenderingControl_with_attribute, AVTransport_1])])))
          network_500 [] ''http://192.168.1.5:8080/desc.xml'') = None"
  by (simp add: RenderingControl_with_attribute_def AVTransport_1_def is_AVTransport_def field_def
      AVTransport_prefix_def parseDeviceDescription_def isValidHttpUrl_def url1 fetch_def GET_def
      network_500_def then_do_def describe_def ok_def fixed_xml_def description_of_def device_of_def)

section \<open>A control URL that cannot be normalized\<close>

lemma normalize_out_of_range:
  "normalizeURL ''http://192.168.1.5:8080/desc.xml'' (JStr ''http://192.168.1.5:99999/ctl'') = None"
  by (simp add: normalizeURL_def url1) (simp add: url_eval)

lemma resolve_bad_controlURL:
  "parseDeviceDescription (fixed_xml (description_of bad_controlURL)) network_500 log
     ''http://192.168.1.5:8080/desc.xml'' =
     (Some (unreachable_descriptor\<lparr>ip := ''Pending''\<rparr>), log @ [GET ''http://192.168.1.5:8080/desc.xml''])"
  by (simp add: parseDeviceDescription_def isValidHttpUrl_def url1 fetch_def GET_def network_500_def
      then_do_def describe_def ok_def fixed_xml_def description_of_def device_of_def
      bad_controlURL_def AVTransport_prefix_def normalize_out_of_range parseDeviceType_def
      trim_or_def trim_def is_space_def unreachable_descriptor_def)

text \<open>
  Against C4 as worded: the control URL of this device has a port out of range, so
  \<^verbatim>\<open>normalizeURL\<close> returns \<^verbatim>\<open>null\<close>; the device is resolved all the same, with
  \<^verbatim>\<open>controlURL: null\<close>, and it is in the list that \<^verbatim>\<open>discover\<close> resolves with.
\<close>

theorem unnormalized_device_counterexample:
  "normalizeURL ''http://192.168.1.5:8080/desc.xml'' (JStr ''http://192.168.1.5:99999/ctl'') = None
   \<and> run (fixed_xml (description_of bad_controlURL)) network_500 (snd (discover_start quiet_env))
         [Message (datagram ''http://192.168.1.5:8080/desc.xml'') ''192.168.1.5'', Resolved 0, Timeout] =
       (None,
        \<lparr>devices = [(''http://192.168.1.5:8080/desc.xml'', unreachable_descriptor)],
         tasks = [], requests = [GET ''http://192.168.1.5:8080/desc.xml''],
         socket_open = False, active = False, timer = False, listening = True,
         datagrams = [(''239.255.255.250'', searchMsg 2), (''255.255.255.255'', searchMsg 2)],
         resolved = Some [unreachable_descriptor]\<rparr>)"
  by (simp add: normalize_out_of_range discover_start_def quiet_env_def on_listening_def new_scan_def
      scan_step_def on_message_def headers1 map_has_def map_set_def on_resolved_def
      resolve_bad_controlURL on_timeout_def cleanup_def resolve_def map_values_def
      unreachable_descriptor_def Let_def)

lemma describe_unnormalized:
  assumes "ok res" "xml (body res) = Inr result" "device_of result = Inr device" "truthy device"
    and "get_prop device ''serviceList'' = Inr sl" "findAVTransportService sl = Inr (Some av)"
    and "isValidHttpUrl loc"
    and "get_prop device ''friendlyName'' = Inr fn" "trim_or fn ''Unnamed Device'' = Inr n"
    and "get_prop device ''deviceType'' = Inr dt" "parseDeviceType dt = Inr t"
    and "get_prop device ''manufacturer'' = Inr mf" "trim_or mf ''Unknown Manufacturer'' = Inr m"
  shows "\<exists>p. describe xml loc res =
           Inr (Some \<lparr>name = n, type = t, manufacturer = m,
                      controlURL = normalizeURL loc (service.controlURL av),
                      ip = ''Pending'', originalLocation = loc, port = p\<rparr>)"
  using assms
  by (auto simp: describe_def then_do_def isValidHttpUrl_def split: option.splits)

lemma parseDeviceDescription_describe:
  "isValidHttpUrl loc \<Longrightarrow> net log (GET loc) = Inr res \<Longrightarrow> describe xml loc res = Inr found \<Longrightarrow>
   fst (parseDeviceDescription xml net log loc) = found"
  by (simp add: parseDeviceDescription_def fetch_def then_do_def)

text \<open>
  C4, as the code has it. \<^verbatim>\<open>normalizeURL\<close> returns \<^verbatim>\<open>null\<close> instead of raising, and the
  caller does not look at it: a device whose description is otherwise resolved is returned
  with \<^verbatim>\<open>controlURL: null\<close>, the message handler stores it in the Map under its location
  without raising, and it stays there for the rest of the scan.
\<close>

theorem unnormalized_device_kept:
  "(ok res \<and> net log (GET loc) = Inr res \<and> xml (body res) = Inr result
      \<and> device_of result = Inr device \<and> truthy device
      \<and> get_prop device ''serviceList'' = Inr sl \<and> findAVTransportService sl = Inr (Some av)
      \<and> isValidHttpUrl loc
      \<and> get_prop device ''friendlyName'' = Inr fn \<and> trim_or fn ''Unnamed Device'' = Inr n
      \<and> get_prop device ''deviceType'' = Inr dt \<and> parseDeviceType dt = Inr t
      \<and> get_prop device ''manufacturer'' = Inr mf \<and> trim_or mf ''Unknown Manufacturer'' = Inr m
      \<and> normalizeURL loc (service.controlURL av) = None \<longrightarrow>
      (\<exists>p. fst (parseDeviceDescription xml net log loc) =
         Some \<lparr>name = n, type = t, manufacturer = m, controlURL = None,
               ip = ''Pending'', originalLocation = loc, port = p\<rparr>))
   \<and> (i < length (tasks s)
        \<and> fst (parseDeviceDescription xml net (requests s) (task_location (tasks s ! i))) = Some d
        \<and> descriptor.controlURL d = None \<longrightarrow>
        map_of (devices (on_resolved xml net s i)) (task_location (tasks s ! i)) =
          Some (d\<lparr>ip := task_address (tasks s ! i)\<rparr>)
        \<and> descriptor.controlURL (d\<lparr>ip := task_address (tasks s ! i)\<rparr>) = None)
   \<and> scan_step xml net s (Resolved i) = (None, on_resolved xml net s i)
   \<and> (map_has (devices s) l \<and> run xml net s evs = (e, s') \<longrightarrow> map_has (devices s') l)"
proof (intro conjI impI)
  assume a: "ok res \<and> net log (GET loc) = Inr res \<and> xml (body res) = Inr result
      \<and> device_of result = Inr device \<and> truthy device
      \<and> get_prop device ''serviceList'' = Inr sl \<and> findAVTransportService sl = Inr (Some av)
      \<and> isValidHttpUrl loc
      \<and> get_prop device ''friendlyName'' = Inr fn \<and> trim_or fn ''Unnamed Device'' = Inr n
      \<and> get_prop device ''deviceType'' = Inr dt \<and> parseDeviceType dt = Inr t
      \<and> get_prop device ''manufacturer'' = Inr mf \<and> trim_or mf ''Unknown Manufacturer'' = Inr m
      \<and> normalizeURL loc (service.controlURL av) = None"
  then obtain p where "describe xml loc res =
           Inr (Some \<lparr>name = n, type = t, manufacturer = m,
                      controlURL = normalizeURL loc (service.controlURL av),
                      ip = ''Pending'', originalLocation = loc, port = p\<rparr>)"
    using describe_unnormalized[of res xml result device sl av loc fn n dt t mf m] by blast
  with a have "fst (parseDeviceDescription xml net log loc) =
         Some \<lparr>name = n, type = t, manufacturer = m, controlURL = None,
               ip = ''Pending'', originalLocation = loc, port = p\<rparr>"
    using parseDeviceDescription_describe[of loc net log res xml] by simp
  then show "\<exists>p. fst (parseDeviceDescription xml net log loc) =
         Some \<lparr>name = n, type = t, manufacturer = m, controlURL = None,
               ip = ''Pending'', originalLocation = loc, port = p\<rparr>" ..
next
  assume "i < length (tasks s)
        \<and> fst (parseDeviceDescription xml net (requests s) (task_location (tasks s ! i))) = Some d
        \<and> descriptor.controlURL d = None"
  then show "map_of (devices (on_resolved xml net s i)) (task_location (tasks s ! i)) =
          Some (d\<lparr>ip := task_address (tasks s ! i)\<rparr>)"
    by (simp add: on_resolved_inserts)
next
  assume "i < length (tasks s)
        \<and> fst (parseDeviceDescription xml net (requests s) (task_location (tasks s ! i))) = Some d
        \<and> descriptor.controlURL d = None"
  then show "descriptor.controlURL (d\<lparr>ip := task_address (tasks s ! i)\<rparr>) = None" by simp
next
  show "scan_step xml net s (Resolved i) = (None, on_resolved xml net s i)"
    by (simp add: scan_step_def)
next
  assume "map_has (devices s) l \<and> run xml net s evs = (e, s')"
  then show "map_has (devices s') l" using run_has by blast
qed

theorem unnormalized_device_kept_witness:
  "normalizeURL ''http://192.168.1.5:8080/desc.xml'' (JStr ''http://192.168.1.5:99999/ctl'') = None
   \<and> (\<exists>p. fst (parseDeviceDescription (fixed_xml (description_of bad_controlURL)) network_500 []
          ''http://192.168.1.5:8080/desc.xml'') =
         Some \<lparr>name = ''Bedroom Speaker'', type = ''MediaRenderer'',
               manufacturer = ''Unknown Manufacturer'', controlURL = None, ip = ''Pending'',
               originalLocation = ''http://192.168.1.5:8080/desc.xml'', port = p\<rparr>)"
proof -
  let ?res = "\<lparr>status = 200, body = ''<root/>''\<rparr>"
  let ?loc = "''http://192.168.1.5:8080/desc.xml''"
  let ?xml = "fixed_xml (description_of bad_controlURL)"
  let ?device = "JObj
       [(''deviceType'', JStr ''urn:schemas-upnp-org:device:MediaRenderer:1''),
        (''friendlyName'', JStr ''Bedroom Speaker''),
        (''serviceList'', bad_controlURL)]"
  let ?av = "\<lparr>serviceType = JStr ''urn:schemas-upnp-org:service:AVTransport:1'',
             controlURL = JStr ''http://192.168.1.5:99999/ctl''\<rparr>"
  have "ok ?res \<and> network_500 [] (GET ?loc) = Inr ?res
      \<and> ?xml (body ?res) = Inr (description_of bad_controlURL)
      \<and> device_of (description_of bad_controlURL) = Inr ?device \<and> truthy ?device
      \<and> get_prop ?device ''serviceList'' = Inr bad_controlURL
      \<and> findAVTransportService bad_controlURL = Inr (Some ?av)
      \<and> isValidHttpUrl ?loc
      \<and> get_prop ?device ''friendlyName'' = Inr (JStr ''Bedroom Speaker'')
      \<and> trim_or (JStr ''Bedroom Speaker'') ''Unnamed Device'' = Inr ''Bedroom Speaker''
      \<and> get_prop ?device ''deviceType'' = Inr (JStr ''urn:schemas-upnp-org:device:MediaRenderer:1'')
      \<and> parseDeviceType (JStr ''urn:schemas-upnp-org:device:MediaRenderer:1'') = Inr ''MediaRenderer''
      \<and> get_prop ?device ''manufacturer'' = Inr JUndef
      \<and> trim_or JUndef ''Unknown Manufacturer'' = Inr ''Unknown Manufacturer''
      \<and> normalizeURL ?loc (service.controlURL ?av) = None"
    by (simp add: ok_def network_500_def GET_def fixed_xml_def description_of_def device_of_def
        then_do_def bad_controlURL_def AVTransport_prefix_def isValidHttpUrl_def url1 trim_or_def
        trim_def is_space_def parseDeviceType_def normalize_out_of_range)
  with unnormalized_device_kept[of ?res network_500 "[]" ?loc ?xml "description_of bad_controlURL"
      ?device bad_controlURL ?av "JStr ''Bedroom Speaker''" "''Bedroom Speaker''"
      "JStr ''urn:schemas-upnp-org:device:MediaRenderer:1''" "''MediaRenderer''" JUndef
      "''Unknown Manufacturer''"]
  have "\<exists>p. fst (parseDeviceDescription ?xml network_500 [] ?loc) =
         Some \<lparr>name = ''Bedroom Speaker'', type = ''MediaRenderer'',
               manufacturer = ''Unknown Manufacturer'', controlURL = None, ip = ''Pending'',
               originalLocation = ?loc, port = p\<rparr>"
    by blast
  with normalize_out_of_range show ?thesis by blast
qed

section \<open>Normalizing a URL, and the port\<close>

lemma collapse_head: "collapse_slashes (a # cs) \<noteq> [] \<and> hd (collapse_slashes (a # cs)) = a"
  by (induction "a # cs" arbitrary: a cs rule: collapse_slashes.induct) auto

lemma sublist_two:
  "sublist [x, y] (a # rest) = ((rest \<noteq> [] \<and> x = a \<and> y = hd rest) \<or> sublist [x, y] rest)"
  by (cases rest) (auto simp: sublist_Cons_right)

lemma collapse_no_double: "\<not> sublist ''//'' (collapse_slashes p)"
proof (induction p rule: collapse_slashes.induct)
  case 1
  then show ?case by simp
next
  case (2 a)
  then show ?case by (simp add: sublist_Cons_right)
next
  case (3 a b cs)
  show ?case
  proof (cases "a = CHR ''/'' \<and> b = CHR ''/''")
    case True
    with 3 show ?thesis by simp
  next
    case False
    with 3 collapse_head[of b cs] show ?thesis by (auto simp: sublist_two)
  qed
qed

lemma collapse_keeps: "filter (\<lambda>c. c \<noteq> CHR ''/'') (collapse_slashes p) = filter (\<lambda>c. c \<noteq> CHR ''/'') p"
  by (induction p rule: collapse_slashes.induct) auto

lemma collapse_slash_kept: "CHR ''/'' \<in> set p \<Longrightarrow> CHR ''/'' \<in> set (collapse_slashes p)"
  by (induction p rule: collapse_slashes.induct) (auto split: if_splits)

lemma normalizeURL_Some:
  "normalizeURL base path = Some h \<Longrightarrow>
   \<exists>b r. URL_new base None = Some b \<and> URL_new (to_string path) (Some (origin b)) = Some r
     \<and> h = href (set_pathname r (collapse_slashes (pathname r)))"
  by (auto simp: normalizeURL_def split: option.splits)

lemma norm_deep: "normalizeURL ''http://192.168.1.5:8080/a/b/desc.xml'' (JStr ''upnp//control//AVTransport'') =
   Some ''http://192.168.1.5:8080/upnp/control/AVTransport''"
  by (simp add: normalizeURL_def url_eval)

text \<open>
  C5, as the code has it. \<^verbatim>\<open>normalizeURL\<close> resolves the path against the origin of the
  base and sets the pathname to the resolved pathname after \<^verbatim>\<open>replace(/\/+/g, '/')\<close>, which
  leaves no two slashes side by side and changes no other character. The origin is what
  the URL class serializes: the default port of the scheme is not part of it, so the base
  \<^verbatim>\<open>http://192.168.1.5:80/desc.xml\<close> gives \<^verbatim>\<open>http://192.168.1.5/upnp/control/AVTransport\<close>;
  a port that is not the default is kept, the path of the base is not used, and doubled
  slashes in the path are made single.
\<close>

theorem normalizeURL_origin_collapse:
  "(normalizeURL base path = Some h \<longrightarrow>
      (\<exists>b r. URL_new base None = Some b \<and> URL_new (to_string path) (Some (origin b)) = Some r
         \<and> h = href (set_pathname r (collapse_slashes (pathname r)))))
   \<and> origin u = protocol u @ ''//'' @ hostname u @ (if url_port u = [] then [] else CHR '':'' # url_port u)
   \<and> \<not> sublist ''//'' (collapse_slashes p)
   \<and> filter (\<lambda>c. c \<noteq> CHR ''/'') (collapse_slashes p) = filter (\<lambda>c. c \<noteq> CHR ''/'') p
   \<and> (CHR ''/'' \<in> set p \<longrightarrow> CHR ''/'' \<in> set (collapse_slashes p))
   \<and> normalizeURL ''http://192.168.1.5:80/desc.xml'' (JStr ''/upnp/control/AVTransport'') =
       Some ''http://192.168.1.5/upnp/control/AVTransport''
   \<and> normalizeURL ''http://192.168.1.5:8080/desc.xml'' (JStr ''/upnp/control/AVTransport'') =
       Some ''http://192.168.1.5:8080/upnp/control/AVTransport''
   \<and> normalizeURL ''http://192.168.1.5:8080/a/b/desc.xml'' (JStr ''upnp//control//AVTransport'') =
       Some ''http://192.168.1.5:8080/upnp/control/AVTransport''"
proof (intro conjI impI)
  assume "normalizeURL base path = Some h"
  then show "\<exists>b r. URL_new base None = Some b \<and> URL_new (to_string path) (Some (origin b)) = Some r
         \<and> h = href (set_pathname r (collapse_slashes (pathname r)))"
    by (rule normalizeURL_Some)
next
  show "origin u = protocol u @ ''//'' @ hostname u @ (if url_port u = [] then [] else CHR '':'' # url_port u)"
    by (simp add: origin_def url_host_def)
next
  show "\<not> sublist ''//'' (collapse_slashes p)" by (rule collapse_no_double)
next
  show "filter (\<lambda>c. c \<noteq> CHR ''/'') (collapse_slashes p) = filter (\<lambda>c. c \<noteq> CHR ''/'') p"
    by (rule collapse_keeps)
next
  assume "CHR ''/'' \<in> set p"
  then show "CHR ''/'' \<in> set (collapse_slashes p)" by (rule collapse_slash_kept)
next
  show "normalizeURL ''http://192.168.1.5:80/desc.xml'' (JStr ''/upnp/control/AVTransport'') =
       Some ''http://192.168.1.5/upnp/control/AVTransport''" by (rule norm80)
next
  show "normalizeURL ''http://192.168.1.5:8080/desc.xml'' (JStr ''/upnp/control/AVTransport'') =
       Some ''http://192.168.1.5:8080/upnp/control/AVTransport''" by (rule norm1)
next
  show "normalizeURL ''http://192.168.1.5:8080/a/b/desc.xml'' (JStr ''upnp//control//AVTransport'') =
       Some ''http://192.168.1.5:8080/upnp/control/AVTransport''" by (rule norm_deep)
qed

theorem normalizeURL_origin_collapse_witness:
  "(\<exists>b r. URL_new ''http://192.168.1.5:8080/desc.xml'' None = Some b
      \<and> URL_new ''/upnp/control/AVTransport'' (Some (origin b)) = Some r
      \<and> ''http://192.168.1.5:8080/upnp/control/AVTransport'' =
          href (set_pathname r (collapse_slashes (pathname r))))
   \<and> CHR ''/'' \<in> set (collapse_slashes ''upnp//control'')"
proof -
  have "CHR ''/'' \<in> set ''upnp//control''" by simp
  with norm1 normalizeURL_origin_collapse[of "''http://192.168.1.5:8080/desc.xml''"
      "JStr ''/upnp/control/AVTransport''" "''http://192.168.1.5:8080/upnp/control/AVTransport''"
      _ "''upnp//control''"]
  have "(\<exists>b r. URL_new ''http://192.168.1.5:8080/desc.xml'' None = Some b
      \<and> URL_new (to_string (JStr ''/upnp/control/AVTransport'')) (Some (origin b)) = Some r
      \<and> ''http://192.168.1.5:8080/upnp/control/AVTransport'' =
          href (set_pathname r (collapse_slashes (pathname r))))
   \<and> CHR ''/'' \<in> set (collapse_slashes ''upnp//control'')"
    by blast
  then show ?thesis by (simp only: to_string.simps)
qed

text \<open>
  Against C5 as worded: for the base \<^verbatim>\<open>http://192.168.1.5:80/desc.xml\<close> the result has no
  \<^verbatim>\<open>:80\<close>.
\<close>

theorem normalizeURL_default_port_counterexample:
  "normalizeURL ''http://192.168.1.5:80/desc.xml'' (JStr ''/upnp/control/AVTransport'') \<noteq>
     Some ''http://192.168.1.5:80/upnp/control/AVTransport''"
  by (simp add: norm80)

lemma digits_value_snoc: "digits_value (ds @ [c]) = 10 * digits_value ds + digit_value c"
  by (simp add: digits_value_def)

lemma digit_value_char: "d < 10 \<Longrightarrow> digit_value (digit_char d) = d"
proof -
  assume "d < 10"
  then have "d \<in> {0, 1, 2, 3, 4, 5, 6, 7, 8, 9}" by auto
  then show ?thesis by (auto simp: digit_value_def digit_char_def)
qed

lemma digits_value_show_nat: "digits_value (show_nat n) = n"
proof (induction n rule: show_nat.induct)
  case (1 n)
  show ?case
  proof (cases "n < 10")
    case True
    then show ?thesis
      using digits_value_snoc[of "[]" "digit_char n"]
      by (simp add: show_nat.simps[of n] digit_value_char digits_value_def)
  next
    case False
    with 1 show ?thesis
      by (simp add: show_nat.simps[of n] digits_value_snoc digit_value_char)
  qed
qed

lemma show_nat_inj: "show_nat m = show_nat n \<Longrightarrow> m = n"
  by (metis digits_value_show_nat)

lemma show_nat_nonempty: "show_nat n \<noteq> []"
  by (simp add: show_nat.simps[of n])

lemma parse_port_cases:
  "parse_port sch p = Some q \<Longrightarrow>
   q \<noteq> show_nat (default_port sch) \<and>
   (q = [] \<and> (p = [] \<or> digits_value p = default_port sch)
    \<or> q = show_nat (digits_value p) \<and> p \<noteq> [] \<and> digits_value p \<noteq> default_port sch)"
  using show_nat_nonempty[of "default_port sch"] show_nat_inj[of "digits_value p" "default_port sch"]
  by (auto simp: parse_port_def split: if_splits)

lemma parse_authority_port:
  "parse_authority sch a = Some (h, q) \<Longrightarrow> q \<noteq> show_nat (default_port sch)"
  using show_nat_nonempty[of "default_port sch"]
  by (auto simp: parse_authority_def split: list.splits option.splits dest: parse_port_cases)

lemma parse_special_port:
  "parse_special sch rest = Some u \<Longrightarrow> protocol u = sch @ '':'' \<and> url_port u \<noteq> show_nat (default_port sch)"
  by (auto simp: parse_special_def Let_def split: option.splits dest: parse_authority_port)

lemma URL_new_port:
  "URL_new loc None = Some u \<Longrightarrow>
   \<exists>sch. special_scheme sch \<and> protocol u = sch @ '':'' \<and> url_port u \<noteq> show_nat (default_port sch)"
  by (auto simp: URL_new_def parse_absolute_def Let_def split: option.splits if_splits)
     (metis parse_special_port)

lemma describe_port:
  "describe xml loc res = Inr (Some d) \<Longrightarrow>
   originalLocation d = loc \<and> (\<exists>u. URL_new loc None = Some u \<and> port d = url_port u)"
  by (auto simp: describe_def then_do_def split: if_splits sum.splits option.splits)

lemma parseDeviceDescription_port:
  assumes "fst (parseDeviceDescription xml net log loc) = Some d"
  shows "originalLocation d = loc \<and> (\<exists>u. URL_new loc None = Some u \<and> port d = url_port u)"
proof -
  from assms obtain res where "describe xml loc res = Inr (Some d)"
    using parseDeviceDescription_Some by blast
  then show ?thesis by (rule describe_port)
qed

lemma resolved_port_of_location:
  "fst (parseDeviceDescription xml net log loc) = Some d \<Longrightarrow> port_of_location (d\<lparr>ip := a\<rparr>)"
  using parseDeviceDescription_port[of xml net log loc d] by (auto simp: port_of_location_def)

lemma on_resolved_ports: 
  assumes "ports_kept s"
  shows "ports_kept (on_resolved xml net s i)"
proof (cases "length (tasks s) \<le> i")
  case True
  with assms show ?thesis by (simp add: on_resolved_def)
next
  case False
  let ?loc = "task_location (tasks s ! i)"
  show ?thesis
  proof (cases "fst (parseDeviceDescription xml net (requests s) ?loc)")
    case None
    with False assms show ?thesis by (simp add: ports_kept_def on_resolved_devices on_resolved_resolved)
  next
    case (Some d)
    then have "port_of_location (d\<lparr>ip := task_address (tasks s ! i)\<rparr>)"
      by (rule resolved_port_of_location)
    with False Some assms show ?thesis
      by (simp add: ports_kept_def on_resolved_devices on_resolved_resolved map_set_all)
  qed
qed

lemma values_all: "list_all (\<lambda>kv. P (snd kv)) m \<Longrightarrow> list_all P (map_values m)"
  by (induction m) (auto simp: map_values_def)

lemma scan_step_ports: "ports_kept s \<Longrightarrow> scan_step xml net s ev = (e, s') \<Longrightarrow> ports_kept s'"
proof (cases ev)
  case (Message msg a)
  assume "ports_kept s" "scan_step xml net s ev = (e, s')"
  with Message show ?thesis
    by (auto simp: scan_step_def ports_kept_def on_message_devices split: if_splits)
next
  case (Resolved i)
  assume "ports_kept s" "scan_step xml net s ev = (e, s')"
  with Resolved show ?thesis by (auto simp: scan_step_def on_resolved_ports)
next
  case Timeout
  assume "ports_kept s" "scan_step xml net s ev = (e, s')"
  with Timeout show ?thesis
    by (auto simp: scan_step_def ports_kept_def on_timeout_def cleanup_def resolve_def Let_def
        values_all split: if_splits)
next
  case (SocketError err)
  assume "ports_kept s" "scan_step xml net s ev = (e, s')"
  with SocketError show ?thesis
    by (auto simp: scan_step_def ports_kept_def on_error_def cleanup_def resolve_def Let_def
        split: if_splits)
qed

lemma run_ports: "ports_kept s \<Longrightarrow> run xml net s evs = (e, s') \<Longrightarrow> ports_kept s'"
proof (induction evs arbitrary: s)
  case Nil
  then show ?case by simp
next
  case (Cons ev evs)
  obtain e1 s1 where st: "scan_step xml net s ev = (e1, s1)" by (cases "scan_step xml net s ev")
  with Cons.prems(1) have k: "ports_kept s1" by (rule scan_step_ports)
  show ?case
  proof (cases e1)
    case None
    with st Cons.prems(2) have "run xml net s1 evs = (e, s')" by simp
    with k show ?thesis by (rule Cons.IH)
  next
    case (Some x)
    with st Cons.prems(2) k show ?thesis by simp
  qed
qed

lemma discover_start_ports: "discover_start env = (e, s) \<Longrightarrow> ports_kept s"
  by (auto simp: discover_start_def on_listening_def on_error_def cleanup_def resolve_def
      new_scan_def ports_kept_def Let_def split: option.splits)

lemma url_no_port: "URL_new ''http://192.168.1.5/desc.xml'' None =
   Some \<lparr>protocol = ''http:'', hostname = ''192.168.1.5'', url_port = [],
         pathname = ''/desc.xml'', query = None, fragment = None\<rparr>"
  by (simp add: url_eval)

lemma url_port_80: "URL_new ''http://192.168.1.5:80/desc.xml'' None =
   Some \<lparr>protocol = ''http:'', hostname = ''192.168.1.5'', url_port = [],
         pathname = ''/desc.xml'', query = None, fragment = None\<rparr>"
  by (simp add: url_eval)

lemma url_port_443: "URL_new ''https://192.168.1.5:443/desc.xml'' None =
   Some \<lparr>protocol = ''https:'', hostname = ''192.168.1.5'', url_port = [],
         pathname = ''/desc.xml'', query = None, fragment = None\<rparr>"
  by (simp add: url_eval)

lemma split_on_single: "split_on c p = [x] \<Longrightarrow> x = p"
  using join_split_on[of c p] by simp

lemma authority_without_colon:
  "parse_authority sch a = Some (h, q) \<Longrightarrow> CHR '':'' \<notin> set a \<Longrightarrow> q = []"
  by (auto simp: parse_authority_def split_on_no_sep split: option.splits)

lemma authority_with_port:
  assumes "parse_authority sch (h0 @ CHR '':'' # p) = Some (h, q)" and "CHR '':'' \<notin> set h0"
  shows "q = [] \<and> (p = [] \<or> digits_value p = default_port sch)
         \<or> q = show_nat (digits_value p) \<and> p \<noteq> [] \<and> digits_value p \<noteq> default_port sch"
proof -
  from assms(2) have sp: "split_on (CHR '':'') (h0 @ CHR '':'' # p) = h0 # split_on (CHR '':'') p"
    by (rule split_on_append_sep)
  with assms(1) obtain x where x: "split_on (CHR '':'') p = [x]" "parse_port sch x = Some q"
    using split_on_nonempty[of "CHR '':''" p]
    by (auto simp: parse_authority_def split: list.splits option.splits)
  then have "x = p" using split_on_single by blast
  with x(2) show ?thesis using parse_port_cases[of sch p q] by blast
qed

text \<open>
  C10. The \<^verbatim>\<open>port\<close> of a descriptor, as \<^verbatim>\<open>parseDeviceDescription\<close> returns it and as
  \<^verbatim>\<open>discover\<close> resolves with it, is the \<^verbatim>\<open>port\<close> of \<^verbatim>\<open>new URL(location)\<close>. That port is
  never the default port of the scheme: it is empty when the authority of the location
  has no colon, an empty port or the default port, and the decimal port otherwise.
\<close>

theorem port_is_url_port:
  "(fst (parseDeviceDescription xml net log loc) = Some d \<longrightarrow>
      (\<exists>u. URL_new loc None = Some u \<and> port d = url_port u))
   \<and> (discover_start env = (e0, s0) \<and> run xml net s0 evs = (e, s) \<and> resolved s = Some r
        \<and> d' \<in> set r \<longrightarrow>
        (\<exists>u. URL_new (originalLocation d') None = Some u \<and> port d' = url_port u))
   \<and> (URL_new loc None = Some u \<longrightarrow>
        (\<exists>sch. special_scheme sch \<and> protocol u = sch @ '':''
           \<and> url_port u \<noteq> show_nat (default_port sch)))
   \<and> (parse_authority sch a = Some (h, q) \<and> CHR '':'' \<notin> set a \<longrightarrow> q = [])
   \<and> (parse_authority sch (h0 @ CHR '':'' # p) = Some (h, q) \<and> CHR '':'' \<notin> set h0 \<longrightarrow>
        q = [] \<and> (p = [] \<or> digits_value p = default_port sch)
        \<or> q = show_nat (digits_value p) \<and> p \<noteq> [] \<and> digits_value p \<noteq> default_port sch)
   \<and> map_option url_port (URL_new ''http://192.168.1.5/desc.xml'' None) = Some []
   \<and> map_option url_port (URL_new ''http://192.168.1.5:80/desc.xml'' None) = Some []
   \<and> map_option url_port (URL_new ''https://192.168.1.5:443/desc.xml'' None) = Some []
   \<and> map_option url_port (URL_new ''http://192.168.1.5:8080/desc.xml'' None) = Some ''8080''"
proof (intro conjI impI)
  assume "fst (parseDeviceDescription xml net log loc) = Some d"
  then show "\<exists>u. URL_new loc None = Some u \<and> port d = url_port u"
    using parseDeviceDescription_port by blast
next
  assume a: "discover_start env = (e0, s0) \<and> run xml net s0 evs = (e, s) \<and> resolved s = Some r
        \<and> d' \<in> set r"
  then have "ports_kept s0" using discover_start_ports by blast
  with a have "ports_kept s" using run_ports by blast
  with a have "port_of_location d'" by (auto simp: ports_kept_def list_all_iff)
  then show "\<exists>u. URL_new (originalLocation d') None = Some u \<and> port d' = url_port u"
    by (auto simp: port_of_location_def split: option.splits)
next
  assume "URL_new loc None = Some u"
  then show "\<exists>sch. special_scheme sch \<and> protocol u = sch @ '':''
           \<and> url_port u \<noteq> show_nat (default_port sch)"
    by (rule URL_new_port)
next
  assume "parse_authority sch a = Some (h, q) \<and> CHR '':'' \<notin> set a"
  then show "q = []" using authority_without_colon by blast
next
  assume "parse_authority sch (h0 @ CHR '':'' # p) = Some (h, q) \<and> CHR '':'' \<notin> set h0"
  then show "q = [] \<and> (p = [] \<or> digits_value p = default_port sch)
        \<or> q = show_nat (digits_value p) \<and> p \<noteq> [] \<and> digits_value p \<noteq> default_port sch"
    using authority_with_port by blast
next
  show "map_option url_port (URL_new ''http://192.168.1.5/desc.xml'' None) = Some []"
    by (simp add: url_no_port)
next
  show "map_option url_port (URL_new ''http://192.168.1.5:80/desc.xml'' None) = Some []"
    by (simp add: url_port_80)
next
  show "map_option url_port (URL_new ''https://192.168.1.5:443/desc.xml'' None) = Some []"
    by (simp add: url_port_443)
next
  show "map_option url_port (URL_new ''http://192.168.1.5:8080/desc.xml'' None) = Some ''8080''"
    by (simp add: url1)
qed

theorem port_is_url_port_witness:
  "fst (parseDeviceDescription example_xml network_500 [] ''http://192.168.1.5:8080/desc.xml'') =
     Some ((example_descriptor ''192.168.1.5'')\<lparr>ip := ''Pending''\<rparr>)
   \<and> (\<exists>u. URL_new ''http://192.168.1.5:8080/desc.xml'' None = Some u
          \<and> port ((example_descriptor ''192.168.1.5'')\<lparr>ip := ''Pending''\<rparr>) = url_port u)
   \<and> (\<exists>u. URL_new (originalLocation (example_descriptor ''192.168.1.6'')) None = Some u
          \<and> port (example_descriptor ''192.168.1.6'') = url_port u)
   \<and> parse_authority ''http'' ''192.168.1.5'' = Some (''192.168.1.5'', [])
   \<and> parse_authority ''http'' ''192.168.1.5:80'' = Some (''192.168.1.5'', [])"
proof -
  have r: "fst (parseDeviceDescription example_xml network_500 [] ''http://192.168.1.5:8080/desc.xml'') =
     Some ((example_descriptor ''192.168.1.5'')\<lparr>ip := ''Pending''\<rparr>)"
    by (simp add: resolve1)
  have s: "discover_start quiet_env = (None, snd (discover_start quiet_env))
     \<and> run example_xml network_500 (snd (discover_start quiet_env)) example_events =
         (None, snd (run example_xml network_500 (snd (discover_start quiet_env)) example_events))
     \<and> resolved (snd (run example_xml network_500 (snd (discover_start quiet_env)) example_events)) =
         Some [example_descriptor ''192.168.1.5'', example_descriptor ''192.168.1.6'']
     \<and> example_descriptor ''192.168.1.6'' \<in>
         set [example_descriptor ''192.168.1.5'', example_descriptor ''192.168.1.6'']"
    by (simp add: example_scan) (simp add: discover_start_def quiet_env_def on_listening_def)
  have a: "parse_authority ''http'' ''192.168.1.5'' = Some (''192.168.1.5'', [])"
          "parse_authority ''http'' ''192.168.1.5:80'' = Some (''192.168.1.5'', [])"
    by (simp_all add: url_eval)
  from port_is_url_port[of example_xml network_500 "[]" "''http://192.168.1.5:8080/desc.xml''"
      "(example_descriptor ''192.168.1.5'')\<lparr>ip := ''Pending''\<rparr>" quiet_env None
      "snd (discover_start quiet_env)" example_events None
      "snd (run example_xml network_500 (snd (discover_start quiet_env)) example_events)"
      "[example_descriptor ''192.168.1.5'', example_descriptor ''192.168.1.6'']"
      "example_descriptor ''192.168.1.6''"] r s a
  show ?thesis by blast
qed

end
